theory Spec2Isabelle
  imports Main "HOL-Library.Word"
begin

unbundle bit_operations_syntax

section \<open>The ELF loader of \<open>exe/elf.go\<close>\<close>

text \<open>
  The development embeds \<open>exe/elf.go\<close>: the header readers \<open>elfArch\<close>,
  \<open>elfEndianness\<close> and \<open>fieldValue\<close>, the ISA selection \<open>setISA\<close>, the walk over
  the program header table \<open>locateExecutableSegments\<close>, the chunking of the executable
  segments \<open>InstructionStream\<close>, and the constructor \<open>NewElf\<close>.

  Go's \<open>uint\<close> is taken at 64 bits (a 64-bit platform) and is a \<open>64 word\<close>, so \<open>+\<close> and
  \<open>*\<close> wrap as they do in Go. Go's \<open>int\<close> is the signed reading \<open>sint\<close> of such a word.
  Loop counters that stay below the length of a slice are natural numbers.
\<close>

subsection \<open>Results, errors and panics\<close>

type_synonym byte = "8 word"
type_synonym uint = "64 word"

text \<open>One constructor for each error value the file creates.\<close>

datatype err =
    ErrArchTooShort      \<comment> \<open>"invalid ELF file: file size less than offset to arch field"\<close>
  | ErrArchField         \<comment> \<open>"invalid ELF file: arch field not 32 or 64"\<close>
  | ErrEndiannessTooShort \<comment> \<open>"invalid ELF file: file size less than offset to endianness field"\<close>
  | ErrEndiannessField   \<comment> \<open>"invalid ELF file: endianness field not "little" or "big""\<close>
  | ErrValueOffset       \<comment> \<open>"invalid ELF file: value offset outside file bounds"\<close>
  | ErrEmptyTable        \<comment> \<open>"invalid ELF file: empty program header table"\<close>
  | ErrNoSegments        \<comment> \<open>"no executable segments found"\<close>
  | ErrUnsupported       \<comment> \<open>\<open>errors.ErrUnsupported\<close>\<close>

text \<open>The error taxonomy of the specification, and the class of each error value.\<close>

datatype errorKind =
  InvalidFormat | OutOfBounds | EmptyProgramHeaderTable | NoExecutableSegments | UnsupportedISA

fun kind :: "err \<Rightarrow> errorKind" where
  "kind ErrArchTooShort = InvalidFormat"
| "kind ErrArchField = InvalidFormat"
| "kind ErrEndiannessTooShort = InvalidFormat"
| "kind ErrEndiannessField = InvalidFormat"
| "kind ErrValueOffset = OutOfBounds"
| "kind ErrEmptyTable = EmptyProgramHeaderTable"
| "kind ErrNoSegments = NoExecutableSegments"
| "kind ErrUnsupported = UnsupportedISA"

text \<open>
  What a call does: it returns a value (\<open>Ok\<close>), returns a non-nil \<open>error\<close> next to the
  zero value (\<open>Err\<close>), stops in a run-time panic (\<open>Panic\<close>: an index or slice bound out
  of range, a method call on a nil interface), or never returns (\<open>Diverge\<close>).
\<close>

datatype 'a result = Ok 'a | Err err | Panic | Diverge

fun bind :: "'a result \<Rightarrow> ('a \<Rightarrow> 'b result) \<Rightarrow> 'b result" where
  "bind (Ok v) f = f v"
| "bind (Err x) f = Err x"
| "bind Panic f = Panic"
| "bind Diverge f = Diverge"

subsection \<open>Byte slices\<close>

text \<open>
  A Go slice is a window on a backing array: \<open>arr\<close> holds the array from the first
  element of the slice up to its capacity, \<open>len\<close> is the length of the slice. Indexing
  \<open>s[i]\<close> is checked against the length, re-slicing \<open>s[lo:hi]\<close> against the capacity.
\<close>

record slice =
  arr :: "byte list"
  len :: nat

definition cap :: "slice \<Rightarrow> nat" where
  "cap s = length (arr s)"

definition wf_slice :: "slice \<Rightarrow> bool" where
  "wf_slice s = (len s \<le> cap s)"

definition elems :: "slice \<Rightarrow> byte list" where
  "elems s = take (len s) (arr s)"

definition index :: "slice \<Rightarrow> nat \<Rightarrow> byte result" where
  "index s i = (if i < len s then Ok (arr s ! i) else Panic)"

definition reslice :: "slice \<Rightarrow> nat \<Rightarrow> nat \<Rightarrow> slice result" where
  "reslice s lo hi =
     (if lo \<le> hi \<and> hi \<le> cap s then Ok \<lparr>arr = drop lo (arr s), len = hi - lo\<rparr> else Panic)"

definition mkslice :: "byte list \<Rightarrow> slice" where
  "mkslice bs = \<lparr>arr = bs, len = length bs\<rparr>"

subsection \<open>Field tables\<close>

record elfField =
  offset32 :: uint
  offset64 :: uint
  size32 :: uint
  size64 :: uint

definition elfHeader :: "(string \<times> elfField) list" where
  "elfHeader =
    [(''arch'', \<lparr>offset32 = 0x04, offset64 = 0x04, size32 = 1, size64 = 1\<rparr>),
     (''endianness'', \<lparr>offset32 = 0x05, offset64 = 0x05, size32 = 1, size64 = 1\<rparr>),
     (''isa'', \<lparr>offset32 = 0x12, offset64 = 0x12, size32 = 1, size64 = 1\<rparr>),
     (''entry point'', \<lparr>offset32 = 0x18, offset64 = 0x18, size32 = 4, size64 = 8\<rparr>),
     (''program header table offset'',
        \<lparr>offset32 = 0x1c, offset64 = 0x20, size32 = 4, size64 = 8\<rparr>),
     (''program header table entry size'',
        \<lparr>offset32 = 0x2a, offset64 = 0x36, size32 = 2, size64 = 2\<rparr>),
     (''program header table num entries'',
        \<lparr>offset32 = 0x2c, offset64 = 0x38, size32 = 2, size64 = 2\<rparr>)]"

definition programHeaderEntry :: "(string \<times> elfField) list" where
  "programHeaderEntry =
    [(''segment type'', \<lparr>offset32 = 0x00, offset64 = 0x00, size32 = 4, size64 = 4\<rparr>),
     (''flags'', \<lparr>offset32 = 0x18, offset64 = 0x04, size32 = 4, size64 = 4\<rparr>),
     (''segment offset'', \<lparr>offset32 = 0x04, offset64 = 0x08, size32 = 4, size64 = 8\<rparr>),
     (''virtual address'', \<lparr>offset32 = 0x08, offset64 = 0x10, size32 = 4, size64 = 8\<rparr>),
     (''file size'', \<lparr>offset32 = 0x10, offset64 = 0x20, size32 = 4, size64 = 8\<rparr>),
     (''mem size'', \<lparr>offset32 = 0x14, offset64 = 0x28, size32 = 4, size64 = 8\<rparr>)]"

text \<open>\<open>targetHeader[field]\<close>: a key that is not in a Go map reads as the zero value.\<close>

definition lookupField :: "(string \<times> elfField) list \<Rightarrow> string \<Rightarrow> elfField" where
  "lookupField targetHeader field =
     (case map_of targetHeader field of
        Some fieldInfo \<Rightarrow> fieldInfo
      | None \<Rightarrow> \<lparr>offset32 = 0, offset64 = 0, size32 = 0, size64 = 0\<rparr>)"

subsection \<open>Instruction sets\<close>

text \<open>
  The package \<open>isa\<close> is not part of the file. Its four descriptors are the constructors
  of \<open>ISA\<close>.
\<close>

datatype ISA = X86 | ARM | Thumb | AArch64

text \<open>
  Modelled from the spec: the method \<open>InstructionSize\<close> of package \<open>isa\<close> is missing.
  The dual-mode instruction set has "a 4-byte default mode and a 2-byte compact mode",
  the variable-width one has "instruction width 1"; the 64-bit ARM set is given its
  fixed width of 4 bytes. The invariant "instructionWidthInBytes > 0" holds of all four.
\<close>

fun InstructionSize :: "ISA \<Rightarrow> nat" where
  "InstructionSize X86 = 1"
| "InstructionSize ARM = 4"
| "InstructionSize Thumb = 2"
| "InstructionSize AArch64 = 4"

record Instruction =
  Op :: string
  Vaddr :: uint

subsection \<open>The image\<close>

text \<open>
  The trie of package \<open>trie\<close> is not part of the file: its type is the parameter \<open>'t\<close>
  and its constructor is an argument of \<open>NewElf\<close>. A nil interface or pointer is
  \<open>None\<close>.
\<close>

record 't Elf =
  arch :: uint
  endianness :: string
  isa :: "ISA option"
  contents :: slice
  programHeaderTableOffset :: uint
  reverseInstructionTrie :: "'t option"

record segment =
  VAddr :: uint
  Offset :: uint
  Size :: uint

subsection \<open>\<open>elfArch\<close> and \<open>elfEndianness\<close>\<close>

definition elfArch :: "slice \<Rightarrow> uint result" where
  "elfArch elfContents =
     (let archOffset = 0x04 in
      if len elfContents < archOffset then Err ErrArchTooShort
      else bind (index elfContents archOffset) (\<lambda>b.
        if b = 1 then Ok 32
        else if b = 2 then Ok 64
        else Err ErrArchField))"

definition elfEndianness :: "slice \<Rightarrow> string result" where
  "elfEndianness elfContents =
     (let endiannessOffset = 0x05 in
      if len elfContents < endiannessOffset then Err ErrEndiannessTooShort
      else bind (index elfContents endiannessOffset) (\<lambda>b.
        if b = 1 then Ok ''little''
        else if b = 2 then Ok ''big''
        else Err ErrEndiannessField))"

subsection \<open>\<open>fieldValue\<close>\<close>

text \<open>
  \<open>binary.BigEndian\<close> and \<open>binary.LittleEndian\<close>: the methods \<open>Uint16\<close>, \<open>Uint32\<close> and
  \<open>Uint64\<close> read the first 2, 4 or 8 bytes of their argument (and panic on a shorter
  one); the result is widened to \<open>uint\<close>.
\<close>

datatype ByteOrder = BigEndian | LittleEndian

definition bigEndianValue :: "byte list \<Rightarrow> uint" where
  "bigEndianValue bs = foldl (\<lambda>acc b. push_bit 8 acc OR ucast b) 0 bs"

definition decode :: "ByteOrder \<Rightarrow> byte list \<Rightarrow> uint" where
  "decode byteOrder bs =
     (case byteOrder of
        BigEndian \<Rightarrow> bigEndianValue bs
      | LittleEndian \<Rightarrow> bigEndianValue (rev bs))"

text \<open>A call through the nil \<open>byteOrder\<close> interface panics.\<close>

definition UintN :: "nat \<Rightarrow> ByteOrder option \<Rightarrow> slice \<Rightarrow> uint result" where
  "UintN n byteOrder b =
     (case byteOrder of
        None \<Rightarrow> Panic
      | Some order \<Rightarrow> if len b < n then Panic else Ok (decode order (take n (arr b))))"

definition fieldValue ::
  "'t Elf \<Rightarrow> string \<Rightarrow> (string \<times> elfField) list \<Rightarrow> uint \<Rightarrow> uint result" where
  "fieldValue e field targetHeader baseOffset =
     (let fieldInfo = lookupField targetHeader field;
          offset0 = (if arch e = 32 then offset32 fieldInfo
                     else if arch e = 64 then offset64 fieldInfo else 0);
          size = (if arch e = 32 then size32 fieldInfo
                  else if arch e = 64 then size64 fieldInfo else 0);
          offset = offset0 + baseOffset
      in
      if int (len (contents e)) < sint (offset + size) then Err ErrValueOffset
      else bind (reslice (contents e) (unat offset) (unat (offset + size))) (\<lambda>value.
        if size = 1 then bind (index value 0) (\<lambda>b. Ok (ucast b))
        else
          let byteOrder = (if endianness e = ''big'' then Some BigEndian
                           else if endianness e = ''little'' then Some LittleEndian
                           else None)
          in
          if size = 2 then UintN 2 byteOrder value
          else if size = 4 then UintN 4 byteOrder value
          else if size = 8 then UintN 8 byteOrder value
          else Ok 0))"

subsection \<open>\<open>setISA\<close>\<close>

definition supportedISAs :: "(uint \<times> ISA) list" where
  "supportedISAs = [(0x03, X86), (0x3e, X86), (0x28, ARM), (0xb7, AArch64)]"

definition noticeARM :: string where
  "noticeARM = ''ARM binary detected. To target thumb mode re-load using the --thumb flag''"

definition noticeIgnored :: string where
  "noticeIgnored = ''--thumb flag ignored: --thumb flag should only be used on ARM binaries''"

text \<open>
  \<open>setISA\<close> assigns \<open>e.isa\<close> and may print one line: the model returns the image with
  the field set, and the lines printed.
\<close>

definition setISA :: "'t Elf \<Rightarrow> bool \<Rightarrow> ('t Elf \<times> string list) result" where
  "setISA e thumb =
     bind (fieldValue e ''isa'' elfHeader 0) (\<lambda>elfIsaValue.
       case map_of supportedISAs elfIsaValue of
         Some elfIsa \<Rightarrow>
           if elfIsaValue = 0x28 then
             (if thumb then Ok (e\<lparr>isa := Some Thumb\<rparr>, [])
              else Ok (e\<lparr>isa := Some elfIsa\<rparr>, [noticeARM]))
           else
             (if thumb then Ok (e\<lparr>isa := Some elfIsa\<rparr>, [noticeIgnored])
              else Ok (e\<lparr>isa := Some elfIsa\<rparr>, []))
       | None \<Rightarrow> Err ErrUnsupported)"

subsection \<open>\<open>locateExecutableSegments\<close>\<close>

text \<open>The body of the loop, for the entry at \<open>entryOffset\<close>.\<close>

definition entryStep :: "'t Elf \<Rightarrow> uint \<Rightarrow> segment list \<Rightarrow> segment list result" where
  "entryStep e entryOffset segments =
     bind (fieldValue e ''flags'' programHeaderEntry entryOffset) (\<lambda>flags.
       let executableFlagMask = 0x1 in
       if flags AND executableFlagMask > 0 then
         bind (fieldValue e ''segment offset'' programHeaderEntry entryOffset) (\<lambda>segmentOffset.
         bind (fieldValue e ''virtual address'' programHeaderEntry entryOffset) (\<lambda>virtualAddress.
         bind (fieldValue e ''file size'' programHeaderEntry entryOffset) (\<lambda>sizeInFile.
           Ok (segments @
               [\<lparr>VAddr = virtualAddress, Offset = segmentOffset, Size = sizeInFile\<rparr>]))))
       else Ok segments)"

text \<open>\<open>for i := range numEntries\<close>, from entry \<open>i\<close> on.\<close>

function entryLoop ::
  "'t Elf \<Rightarrow> uint \<Rightarrow> uint \<Rightarrow> nat \<Rightarrow> nat \<Rightarrow> segment list \<Rightarrow> segment list result" where
  "entryLoop e tableOffset tableEntrySize i numEntries segments =
     (if i < numEntries then
        bind (entryStep e
                (tableOffset + (of_nat i * tableEntrySize)) segments)
          (\<lambda>segments'.
             entryLoop e tableOffset tableEntrySize (Suc i)
               numEntries segments')
      else Ok segments)"
  by pat_completeness auto
termination
  by (relation "measure (\<lambda>(e, off, sz, i, n, segs). n - i)") auto

definition locateExecutableSegments :: "'t Elf \<Rightarrow> segment list result" where
  "locateExecutableSegments e =
     bind (fieldValue e ''program header table offset'' elfHeader 0) (\<lambda>tableOffset.
     bind (fieldValue e ''program header table entry size'' elfHeader 0) (\<lambda>tableEntrySize.
     bind (fieldValue e ''program header table num entries'' elfHeader 0) (\<lambda>numEntries.
       if numEntries = 0 then Err ErrEmptyTable
       else entryLoop e tableOffset tableEntrySize 0 (unat numEntries) [])))"

subsection \<open>\<open>InstructionStream\<close>\<close>

text \<open>\<open>hex.EncodeToString\<close>: two lower-case digits for each byte, high nibble first.\<close>

definition hextable :: string where
  "hextable = ''0123456789abcdef''"

definition EncodeToString :: "byte list \<Rightarrow> string" where
  "EncodeToString src =
     concat (map (\<lambda>v. [hextable ! unat (drop_bit 4 v), hextable ! unat (v AND 0x0f)]) src)"

text \<open>
  The inner loop \<open>for i := 0; i < len(segmentContents); i += instructionSize\<close>, from
  \<open>i\<close> on. With an instruction size of 0 the loop never ends.
\<close>

function chunkLoop ::
  "slice \<Rightarrow> uint \<Rightarrow> nat \<Rightarrow> nat \<Rightarrow> Instruction list \<Rightarrow> Instruction list result" where
  "chunkLoop segmentContents vaddr instructionSize i instructionStream =
     (if i < len segmentContents then
        (if instructionSize = 0 then Diverge
         else
           bind (reslice segmentContents i (i + instructionSize)) (\<lambda>chunk.
             chunkLoop segmentContents vaddr instructionSize (i + instructionSize)
               (instructionStream @
                  [\<lparr>Op = EncodeToString (elems chunk), Vaddr = vaddr + of_nat i\<rparr>])))
      else Ok instructionStream)"
  by pat_completeness auto
termination
  by (relation "measure (\<lambda>(s, v, w, i, acc). len s - i)") auto

text \<open>The outer loop over the executable segments.\<close>

fun segmentLoop ::
  "slice \<Rightarrow> nat \<Rightarrow> segment list \<Rightarrow> Instruction list \<Rightarrow> Instruction list result" where
  "segmentLoop buf instructionSize [] instructionStream = Ok instructionStream"
| "segmentLoop buf instructionSize (seg # rest) instructionStream =
     bind (reslice buf (unat (Offset seg)) (unat (Offset seg + Size seg))) (\<lambda>segmentContents.
     bind (chunkLoop segmentContents (VAddr seg) instructionSize 0 instructionStream)
       (\<lambda>instructionStream'. segmentLoop buf instructionSize rest instructionStream'))"

definition InstructionStream :: "'t Elf \<Rightarrow> segment list \<Rightarrow> Instruction list result" where
  "InstructionStream e executableSegments =
     (case isa e of
        None \<Rightarrow> Panic
      | Some d \<Rightarrow> segmentLoop (contents e) (InstructionSize d) executableSegments [])"

subsection \<open>\<open>NewElf\<close>\<close>

text \<open>
  \<open>Err x\<close> is the return \<open>nil, err\<close>, and \<open>Ok elf\<close> the return \<open>elf, nil\<close>. The lines that
  \<open>setISA\<close> prints are not part of what \<open>NewElf\<close> returns and are dropped here.
\<close>

definition NewElf ::
  "(Instruction list \<Rightarrow> ISA option \<Rightarrow> 't) \<Rightarrow> slice \<Rightarrow> (string \<rightharpoonup> string) \<Rightarrow> 't Elf result" where
  "NewElf Trie elfContents args =
     (let thumb = (args ''---thumb'' \<noteq> None) in
      bind (elfArch elfContents) (\<lambda>arch'.
      bind (elfEndianness elfContents) (\<lambda>endianness'.
        let elf = \<lparr>arch = arch', endianness = endianness', isa = None,
                   contents = elfContents, programHeaderTableOffset = 0,
                   reverseInstructionTrie = None\<rparr>
        in
        bind (setISA elf thumb) (\<lambda>(elf, printed).
        bind (locateExecutableSegments elf) (\<lambda>executableSegments.
        bind (InstructionStream elf executableSegments) (\<lambda>instructionStream.
          if length instructionStream = 0 then Err ErrNoSegments
          else Ok (elf\<lparr>reverseInstructionTrie :=
                          Some (Trie instructionStream (isa elf))\<rparr>)))))))"

subsection \<open>Example images\<close>

text \<open>
  The image under construction, as \<open>NewElf\<close> creates it before \<open>setISA\<close> runs (with
  \<open>None\<close> for the ISA), and as it is afterwards.
\<close>

definition elfOf :: "uint \<Rightarrow> string \<Rightarrow> ISA option \<Rightarrow> slice \<Rightarrow> 't Elf" where
  "elfOf a en d buf =
     \<lparr>arch = a, endianness = en, isa = d, contents = buf, programHeaderTableOffset = 0,
      reverseInstructionTrie = None\<rparr>"

text \<open>
  A 32-bit little-endian ARM image of 89 bytes: the header (52 bytes), one program header
  entry at 0x34 (32 bytes: file offset 0x54, virtual address 0x1000, file size 5, flags 5)
  and the 5 bytes of the segment, which end the file.
\<close>

definition image_tail5 :: "byte list" where
  "image_tail5 =
    [0x7f, 0x45, 0x4c, 0x46, 0x01, 0x01, 0x00, 0x00, 0x00, 0x00, 0x00, 0x00, 0x00, 0x00, 0x00, 0x00,
     0x00, 0x00, 0x28, 0x00, 0x00, 0x00, 0x00, 0x00, 0x00, 0x00, 0x00, 0x00, 0x34, 0x00, 0x00, 0x00,
     0x00, 0x00, 0x00, 0x00, 0x00, 0x00, 0x00, 0x00, 0x00, 0x00, 0x20, 0x00, 0x01, 0x00, 0x00, 0x00,
     0x00, 0x00, 0x00, 0x00, 0x01, 0x00, 0x00, 0x00, 0x54, 0x00, 0x00, 0x00, 0x00, 0x10, 0x00, 0x00,
     0x00, 0x00, 0x00, 0x00, 0x05, 0x00, 0x00, 0x00, 0x05, 0x00, 0x00, 0x00, 0x05, 0x00, 0x00, 0x00,
     0x00, 0x00, 0x00, 0x00, 0xe1, 0xa0, 0x00, 0x00, 0xe1]"

text \<open>
  The same image with three more bytes after the 5 bytes of the segment (92 bytes).
\<close>

definition image_tail5_more :: "byte list" where
  "image_tail5_more =
    [0x7f, 0x45, 0x4c, 0x46, 0x01, 0x01, 0x00, 0x00, 0x00, 0x00, 0x00, 0x00, 0x00, 0x00, 0x00, 0x00,
     0x00, 0x00, 0x28, 0x00, 0x00, 0x00, 0x00, 0x00, 0x00, 0x00, 0x00, 0x00, 0x34, 0x00, 0x00, 0x00,
     0x00, 0x00, 0x00, 0x00, 0x00, 0x00, 0x00, 0x00, 0x00, 0x00, 0x20, 0x00, 0x01, 0x00, 0x00, 0x00,
     0x00, 0x00, 0x00, 0x00, 0x01, 0x00, 0x00, 0x00, 0x54, 0x00, 0x00, 0x00, 0x00, 0x10, 0x00, 0x00,
     0x00, 0x00, 0x00, 0x00, 0x05, 0x00, 0x00, 0x00, 0x05, 0x00, 0x00, 0x00, 0x05, 0x00, 0x00, 0x00,
     0x00, 0x00, 0x00, 0x00, 0xe1, 0xa0, 0x00, 0x00, 0xe1, 0x2f, 0xff, 0x1e]"

text \<open>
  A 32-bit little-endian ARM image of 88 bytes whose one executable entry declares the
  file offset 0x54 and the file size 0xffffff00.
\<close>

definition image_oversize :: "byte list" where
  "image_oversize =
    [0x7f, 0x45, 0x4c, 0x46, 0x01, 0x01, 0x00, 0x00, 0x00, 0x00, 0x00, 0x00, 0x00, 0x00, 0x00, 0x00,
     0x00, 0x00, 0x28, 0x00, 0x00, 0x00, 0x00, 0x00, 0x00, 0x00, 0x00, 0x00, 0x34, 0x00, 0x00, 0x00,
     0x00, 0x00, 0x00, 0x00, 0x00, 0x00, 0x00, 0x00, 0x00, 0x00, 0x20, 0x00, 0x01, 0x00, 0x00, 0x00,
     0x00, 0x00, 0x00, 0x00, 0x01, 0x00, 0x00, 0x00, 0x54, 0x00, 0x00, 0x00, 0x00, 0x10, 0x00, 0x00,
     0x00, 0x00, 0x00, 0x00, 0x00, 0xff, 0xff, 0xff, 0x00, 0xff, 0xff, 0xff, 0x05, 0x00, 0x00, 0x00,
     0x00, 0x00, 0x00, 0x00, 0xe1, 0xa0, 0x00, 0x00]"

text \<open>
  A 64-bit little-endian x86-64 header of 64 bytes that declares one program header entry
  at the table offset 0x8000000000000000.
\<close>

definition image_far_table :: "byte list" where
  "image_far_table =
    [0x7f, 0x45, 0x4c, 0x46, 0x02, 0x01, 0x00, 0x00, 0x00, 0x00, 0x00, 0x00, 0x00, 0x00, 0x00, 0x00,
     0x00, 0x00, 0x3e, 0x00, 0x00, 0x00, 0x00, 0x00, 0x00, 0x00, 0x00, 0x00, 0x00, 0x00, 0x00, 0x00,
     0x00, 0x00, 0x00, 0x00, 0x00, 0x00, 0x00, 0x80, 0x00, 0x00, 0x00, 0x00, 0x00, 0x00, 0x00, 0x00,
     0x00, 0x00, 0x00, 0x00, 0x00, 0x00, 0x38, 0x00, 0x01, 0x00, 0x00, 0x00, 0x00, 0x00, 0x00, 0x00]"

text \<open>
  A 32-bit little-endian ARM image of 164 bytes with three program header entries at
  0x34, 0x54 and 0x74: an executable one (offset 0x94, address 0x1000, size 8, flags 5), a
  writable one (offset 0x9c, address 0x2000, size 4, flags 6) and an executable one
  (offset 0xa0, address 0x3000, size 4, flags 1), followed by the 16 bytes of the segments.
\<close>

definition image_three :: "byte list" where
  "image_three =
    [0x7f, 0x45, 0x4c, 0x46, 0x01, 0x01, 0x00, 0x00, 0x00, 0x00, 0x00, 0x00, 0x00, 0x00, 0x00, 0x00,
     0x00, 0x00, 0x28, 0x00, 0x00, 0x00, 0x00, 0x00, 0x00, 0x00, 0x00, 0x00, 0x34, 0x00, 0x00, 0x00,
     0x00, 0x00, 0x00, 0x00, 0x00, 0x00, 0x00, 0x00, 0x00, 0x00, 0x20, 0x00, 0x03, 0x00, 0x00, 0x00,
     0x00, 0x00, 0x00, 0x00, 0x01, 0x00, 0x00, 0x00, 0x94, 0x00, 0x00, 0x00, 0x00, 0x10, 0x00, 0x00,
     0x00, 0x00, 0x00, 0x00, 0x08, 0x00, 0x00, 0x00, 0x08, 0x00, 0x00, 0x00, 0x05, 0x00, 0x00, 0x00,
     0x00, 0x00, 0x00, 0x00, 0x01, 0x00, 0x00, 0x00, 0x9c, 0x00, 0x00, 0x00, 0x00, 0x20, 0x00, 0x00,
     0x00, 0x00, 0x00, 0x00, 0x04, 0x00, 0x00, 0x00, 0x04, 0x00, 0x00, 0x00, 0x06, 0x00, 0x00, 0x00,
     0x00, 0x00, 0x00, 0x00, 0x01, 0x00, 0x00, 0x00, 0xa0, 0x00, 0x00, 0x00, 0x00, 0x30, 0x00, 0x00,
     0x00, 0x00, 0x00, 0x00, 0x04, 0x00, 0x00, 0x00, 0x04, 0x00, 0x00, 0x00, 0x01, 0x00, 0x00, 0x00,
     0x00, 0x00, 0x00, 0x00, 0xe1, 0xa0, 0x00, 0x00, 0xe1, 0x2f, 0xff, 0x1e, 0x01, 0x02, 0x03, 0x04,
     0xe1, 0xa0, 0x10, 0x02]"

text \<open>
  A 64-bit little-endian x86-64 image of 128 bytes with two program header entries at
  0x40 and 0x78: an executable one (offset 0, address 0x400000, size 4, flags 5) and one
  with flags 6 of which the file holds the first 8 bytes only (type and flags).
\<close>

definition image_short_entry :: "byte list" where
  "image_short_entry =
    [0x7f, 0x45, 0x4c, 0x46, 0x02, 0x01, 0x00, 0x00, 0x00, 0x00, 0x00, 0x00, 0x00, 0x00, 0x00, 0x00,
     0x00, 0x00, 0x3e, 0x00, 0x00, 0x00, 0x00, 0x00, 0x00, 0x00, 0x00, 0x00, 0x00, 0x00, 0x00, 0x00,
     0x40, 0x00, 0x00, 0x00, 0x00, 0x00, 0x00, 0x00, 0x00, 0x00, 0x00, 0x00, 0x00, 0x00, 0x00, 0x00,
     0x00, 0x00, 0x00, 0x00, 0x00, 0x00, 0x38, 0x00, 0x02, 0x00, 0x00, 0x00, 0x00, 0x00, 0x00, 0x00,
     0x01, 0x00, 0x00, 0x00, 0x05, 0x00, 0x00, 0x00, 0x00, 0x00, 0x00, 0x00, 0x00, 0x00, 0x00, 0x00,
     0x00, 0x00, 0x40, 0x00, 0x00, 0x00, 0x00, 0x00, 0x00, 0x00, 0x00, 0x00, 0x00, 0x00, 0x00, 0x00,
     0x04, 0x00, 0x00, 0x00, 0x00, 0x00, 0x00, 0x00, 0x04, 0x00, 0x00, 0x00, 0x00, 0x00, 0x00, 0x00,
     0x00, 0x00, 0x00, 0x00, 0x00, 0x00, 0x00, 0x00, 0x51, 0xe5, 0x74, 0x64, 0x06, 0x00, 0x00, 0x00]"

text \<open>
  A 32-bit little-endian x86 header of 52 bytes that declares no program header entry.
\<close>

definition image_no_entries :: "byte list" where
  "image_no_entries =
    [0x7f, 0x45, 0x4c, 0x46, 0x01, 0x01, 0x00, 0x00, 0x00, 0x00, 0x00, 0x00, 0x00, 0x00, 0x00, 0x00,
     0x00, 0x00, 0x03, 0x00, 0x00, 0x00, 0x00, 0x00, 0x00, 0x00, 0x00, 0x00, 0x34, 0x00, 0x00, 0x00,
     0x00, 0x00, 0x00, 0x00, 0x00, 0x00, 0x00, 0x00, 0x00, 0x00, 0x20, 0x00, 0x00, 0x00, 0x00, 0x00,
     0x00, 0x00, 0x00, 0x00]"

section \<open>Evaluation and basic facts\<close>

declare chunkLoop.simps [simp del] entryLoop.simps [simp del]

lemmas header_defs = lookupField_def elfHeader_def programHeaderEntry_def

lemmas read_defs = fieldValue_def header_defs reslice_def cap_def index_def UintN_def
  decode_def bigEndianValue_def

lemmas load_defs = NewElf_def elfArch_def elfEndianness_def setISA_def supportedISAs_def
  locateExecutableSegments_def entryStep_def InstructionStream_def elems_def
  entryLoop.simps chunkLoop.simps

lemma bind_eq_Ok: "bind r f = Ok v \<longleftrightarrow> (\<exists>a. r = Ok a \<and> f a = Ok v)"
  by (cases r) auto

lemma bind_eq_Err: "bind r f = Err x \<longleftrightarrow> r = Err x \<or> (\<exists>a. r = Ok a \<and> f a = Err x)"
  by (cases r) auto

lemma reslice_eq_Ok:
  "reslice s lo hi = Ok c \<longleftrightarrow>
     lo \<le> hi \<and> hi \<le> cap s \<and> c = \<lparr>arr = drop lo (arr s), len = hi - lo\<rparr>"
  by (auto simp: reslice_def)

lemma bind_not_Err:
  assumes "r \<noteq> Err x" and "\<And>a. f a \<noteq> Err x"
  shows "bind r f \<noteq> Err x"
  using assms by (cases r) simp_all

lemma reslice_not_Err: "reslice s lo hi \<noteq> Err x"
  by (simp add: reslice_def)

lemma InstructionSize_pos: "0 < InstructionSize d"
  by (cases d) simp_all

section \<open>Word-size detection\<close>

lemma elfArch_guarded:
  assumes "len c \<noteq> 4"
  shows "elfArch c =
    (if len c < 4 then Err ErrArchTooShort
     else if arr c ! 4 = 1 then Ok 32
     else if arr c ! 4 = 2 then Ok 64
     else Err ErrArchField)"
  using assms by (simp add: elfArch_def index_def)

text \<open>
  Claim C3: for every input buffer, word-size detection returns 32 when the byte at
  offset 0x04 is 1, 64 when it is 2, and fails with an \<open>InvalidFormat\<close> error in every
  other case, a buffer too short to hold offset 0x04 included, and never panics.

  \<open>elfArch\<close> guards the read with \<open>len(elfContents) < archOffset\<close>, which lets a buffer
  of exactly 4 bytes through: it has no byte at index 4, and the read \<open>elfContents[4]\<close>
  panics. For every other length \<open>elfArch\<close> does what the claim says
  (\<open>elfArch_guarded\<close>). The theorem evaluates \<open>elfArch\<close> and \<open>NewElf\<close> on the 4 bytes of
  the ELF magic number.
\<close>

theorem elfArch_length_4_panics:
  "elfArch (mkslice [0x7f, 0x45, 0x4c, 0x46]) = Panic
   \<and> NewElf Trie (mkslice [0x7f, 0x45, 0x4c, 0x46]) args = Panic"
  by (simp add: NewElf_def elfArch_def mkslice_def index_def)

section \<open>Reading a field\<close>

lemma fieldValue_guarded:
  fixes e :: "'t Elf" and targetHeader :: "(string \<times> elfField) list" and field :: string
    and baseOffset :: uint
  defines "fieldInfo \<equiv> lookupField targetHeader field"
  defines "offset0 \<equiv> (if arch e = 32 then offset32 fieldInfo else offset64 fieldInfo)"
  defines "width \<equiv> (if arch e = 32 then size32 fieldInfo else size64 fieldInfo)"
  assumes arch: "arch e = 32 \<or> arch e = 64"
    and en: "endianness e = ''big'' \<or> endianness e = ''little''"
    and wf: "wf_slice (contents e)"
    and sz: "width = 1 \<or> width = 2 \<or> width = 4 \<or> width = 8"
    and small: "unat offset0 + unat baseOffset + unat width < 2 ^ 63"
  shows "fieldValue e field targetHeader baseOffset =
     (if len (contents e) < unat offset0 + unat baseOffset + unat width then Err ErrValueOffset
      else Ok (decode (if endianness e = ''big'' then BigEndian else LittleEndian)
                (take (unat width) (drop (unat offset0 + unat baseOffset) (arr (contents e))))))"
proof -
  have o: "unat (offset0 + baseOffset) = unat offset0 + unat baseOffset"
    using small by (intro unat_add_lem [THEN iffD1]) simp
  have os: "unat (offset0 + baseOffset + width) = unat offset0 + unat baseOffset + unat width"
    using small o by (subst unat_add_lem [THEN iffD1]) simp_all
  have s: "sint (offset0 + baseOffset + width) = int (unat offset0 + unat baseOffset + unat width)"
  proof -
    define k where "k = int (unat offset0 + unat baseOffset + unat width)"
    have u: "uint (offset0 + baseOffset + width) = k"
      unfolding k_def os [symmetric] by (rule uint_nat)
    have "k < int (2 ^ 63)"
      unfolding k_def using small by (simp only: of_nat_less_iff)
    then have hi: "k < 2 ^ 63"
      by simp
    have "0 \<le> k"
      by (simp add: k_def)
    then have lo: "- (2 ^ 63) \<le> k"
      by simp
    have "signed_take_bit 63 k = k"
      using lo hi by (rule signed_take_bit_int_eq_self)
    then have "sint (offset0 + baseOffset + width) = k"
      by (simp add: sint_uint u)
    then show ?thesis
      by (simp only: k_def)
  qed
  have unfold: "fieldValue e field targetHeader baseOffset =
      (if int (len (contents e)) < sint (offset0 + baseOffset + width) then Err ErrValueOffset
       else bind (reslice (contents e) (unat (offset0 + baseOffset))
                   (unat (offset0 + baseOffset + width))) (\<lambda>value.
        if width = 1 then bind (index value 0) (\<lambda>b. Ok (ucast b))
        else
          let byteOrder = (if endianness e = ''big'' then Some BigEndian
                           else if endianness e = ''little'' then Some LittleEndian
                           else None)
          in
          if width = 2 then UintN 2 byteOrder value
          else if width = 4 then UintN 4 byteOrder value
          else if width = 8 then UintN 8 byteOrder value
          else Ok 0))"
    using arch unfolding fieldValue_def Let_def offset0_def width_def fieldInfo_def by auto
  have test: "int (len (contents e)) < sint (offset0 + baseOffset + width) \<longleftrightarrow>
      len (contents e) < unat offset0 + unat baseOffset + unat width"
    unfolding s by (rule of_nat_less_iff)
  note unfold = unfold [unfolded test]
  show ?thesis
  proof (cases "len (contents e) < unat offset0 + unat baseOffset + unat width")
    case True
    then show ?thesis
      by (simp only: unfold if_True)
  next
    case False
    then have le: "unat offset0 + unat baseOffset + unat width \<le> cap (contents e)"
      using wf by (simp add: wf_slice_def)
    have rs: "reslice (contents e) (unat (offset0 + baseOffset))
                   (unat (offset0 + baseOffset + width)) =
        Ok \<lparr>arr = drop (unat offset0 + unat baseOffset) (arr (contents e)), len = unat width\<rparr>"
      using le by (simp add: reslice_def o os)
    have one: "decode bo [b] = ucast b" for bo and b :: byte
      by (cases bo) (simp_all add: decode_def bigEndianValue_def)
    have nonempty: "drop (unat offset0 + unat baseOffset) (arr (contents e)) \<noteq> []"
      if "width = 1"
      using le that by (simp add: cap_def)
    show ?thesis
      using sz
    proof (elim disjE)
      assume "width = 1"
      then show ?thesis
        unfolding unfold rs using False nonempty
        by (simp add: index_def one take_Suc_conv_app_nth hd_conv_nth [symmetric] take_Suc)
    next
      assume "width = 2"
      then show ?thesis
        unfolding unfold rs using False en
        by (auto simp: UintN_def)
    next
      assume "width = 4"
      then show ?thesis
        unfolding unfold rs using False en
        by (auto simp: UintN_def)
    next
      assume "width = 8"
      then show ?thesis
        unfolding unfold rs using False en
        by (auto simp: UintN_def)
    qed
  qed
qed

text \<open>
  Claim C5: for every base offset, however large, \<open>fieldValue\<close> first checks that the
  offset of the field plus its width does not exceed the length of the buffer, returns
  the out-of-bounds error when it does, and never reads outside the buffer or panics.

  The check is \<open>len(e.contents) < int(offset+size)\<close>. Below \<open>2^63\<close> it decides what the
  claim says (\<open>fieldValue_guarded\<close>). The sum is a \<open>uint\<close>, though, and from \<open>2^63\<close> on
  its conversion to \<open>int\<close> is negative: the check passes and the slice expression
  after it panics. The table offset of a 64-bit image is 8 bytes of the file: the
  theorem evaluates the read of the flags of the first entry, and \<open>NewElf\<close>, on a 64-byte
  header whose table offset is \<open>2^63\<close>.
\<close>

theorem fieldValue_far_table_panics:
  "fieldValue (elfOf 64 ''little'' (Some X86) (mkslice image_far_table))
       ''flags'' programHeaderEntry 0x8000000000000000 = Panic
   \<and> NewElf Trie (mkslice image_far_table) Map.empty = Panic"
  by (simp add: load_defs read_defs elfOf_def mkslice_def image_far_table_def)

section \<open>The instruction stream\<close>

lemma chunk_count_step:
  fixes w i n :: nat
  assumes "0 < w" and "i < n"
  shows "(n - i + (w - 1)) div w = Suc ((n - (i + w) + (w - 1)) div w)"
proof (cases "i + w \<le> n")
  case True
  then have "n - i + (w - 1) = (n - (i + w) + (w - 1)) + w"
    by simp
  then have "(n - i + (w - 1)) div w = ((n - (i + w) + (w - 1)) + w) div w"
    by (rule arg_cong)
  also have "\<dots> = (n - (i + w) + (w - 1)) div w + 1"
    using assms(1) by (intro div_add_self2) simp
  finally show ?thesis by (simp only: Suc_eq_plus1)
next
  case False
  then have z: "n - (i + w) = 0" and "n - i + (w - 1) < w * Suc 1" and "w * 1 \<le> n - i + (w - 1)"
    using assms by simp_all
  then have "(n - i + (w - 1)) div w = 1"
    by (intro div_nat_eqI)
  moreover have "(n - (i + w) + (w - 1)) div w = 0"
    unfolding z using assms(1) by simp
  ultimately show ?thesis by (simp only: One_nat_def)
qed

lemma chunk_index_bound:
  fixes w k n :: nat
  assumes "0 < w" and "(k + 1) * w \<le> n"
  shows "k < (n + (w - 1)) div w"
proof -
  have "(k + 1) * w \<le> n + (w - 1)"
    using assms(2) by simp
  then have "k + 1 \<le> (n + (w - 1)) div w"
    using assms(1) by (simp only: less_eq_div_iff_mult_less_eq)
  then show ?thesis by simp
qed

lemma chunkLoop_Ok:
  assumes "0 < w" and "chunkLoop sc v w i acc = Ok out"
  shows "out = acc @ map (\<lambda>q. \<lparr>Op = EncodeToString (take w (drop (i + q * w) (arr sc))),
                               Vaddr = v + of_nat (i + q * w)\<rparr>)
                       [0..<(len sc - i + (w - 1)) div w]"
  using assms
proof (induction sc v w i acc rule: chunkLoop.induct)
  case (1 sc v w i acc)
  show ?case
  proof (cases "i < len sc")
    case False
    then have "(len sc - i + (w - 1)) div w = 0"
      using "1.prems"(1) by simp
    moreover have "out = acc"
      using "1.prems"(2) False by (simp add: chunkLoop.simps [of sc v w i acc])
    ultimately show ?thesis by simp
  next
    case True
    have w: "w \<noteq> 0" using "1.prems"(1) by simp
    obtain chunk where chunk: "reslice sc i (i + w) = Ok chunk"
      and rest: "chunkLoop sc v w (i + w)
                   (acc @ [\<lparr>Op = EncodeToString (elems chunk), Vaddr = v + of_nat i\<rparr>]) = Ok out"
      using "1.prems"(2) True w
      by (auto simp: chunkLoop.simps [of sc v w i acc] bind_eq_Ok)
    have el: "elems chunk = take w (drop i (arr sc))"
      using chunk by (simp add: reslice_eq_Ok elems_def)
    define n where "n = (len sc - (i + w) + (w - 1)) div w"
    have cnt: "(len sc - i + (w - 1)) div w = Suc n"
      unfolding n_def using "1.prems"(1) True by (rule chunk_count_step)
    have "out = (acc @ [\<lparr>Op = EncodeToString (elems chunk), Vaddr = v + of_nat i\<rparr>]) @
                map (\<lambda>q. \<lparr>Op = EncodeToString (take w (drop (i + w + q * w) (arr sc))),
                          Vaddr = v + of_nat (i + w + q * w)\<rparr>) [0..<n]"
      unfolding n_def using "1.IH" [OF True w "1.prems"(1) rest] .
    moreover have "i + w + q * w = i + Suc q * w" for q
      by simp
    ultimately show ?thesis
      unfolding cnt map_upt_Suc by (simp add: el)
  qed
qed

lemma reslice_segment:
  assumes "reslice buf (unat off) (unat (off + sz)) = Ok sc"
  shows "arr sc = drop (unat off) (arr buf)" and "len sc = unat sz"
    and "unat off + unat sz \<le> cap buf"
proof -
  from assms have le: "unat off \<le> unat (off + sz)" and c: "unat (off + sz) \<le> cap buf"
    and sc: "sc = \<lparr>arr = drop (unat off) (arr buf), len = unat (off + sz) - unat off\<rparr>"
    by (simp_all add: reslice_eq_Ok)
  from le have "off \<le> off + sz" by (simp add: word_le_nat_alt)
  then have sum: "unat (off + sz) = unat off + unat sz"
    by (simp add: unat_plus_simple)
  show "arr sc = drop (unat off) (arr buf)" using sc by simp
  show "len sc = unat sz" using sc sum by simp
  show "unat off + unat sz \<le> cap buf" using c sum by simp
qed

lemma segmentLoop_Ok:
  assumes "0 < w" and "segmentLoop buf w segs acc = Ok out"
  shows "out = acc @ concat (map (\<lambda>s. map (\<lambda>q.
             \<lparr>Op = EncodeToString (take w (drop (unat (Offset s) + q * w) (arr buf))),
              Vaddr = VAddr s + of_nat (q * w)\<rparr>) [0..<(unat (Size s) + (w - 1)) div w]) segs)"
  using assms
proof (induction segs arbitrary: acc)
  case Nil
  then show ?case by simp
next
  case (Cons s rest)
  from Cons.prems(2) obtain sc acc' where sc: "reslice buf (unat (Offset s)) (unat (Offset s + Size s)) = Ok sc"
    and ch: "chunkLoop sc (VAddr s) w 0 acc = Ok acc'"
    and re: "segmentLoop buf w rest acc' = Ok out"
    by (auto simp: bind_eq_Ok)
  note seg = reslice_segment [OF sc]
  have "acc' = acc @ map (\<lambda>q. \<lparr>Op = EncodeToString (take w (drop (unat (Offset s) + q * w) (arr buf))),
              Vaddr = VAddr s + of_nat (q * w)\<rparr>) [0..<(unat (Size s) + (w - 1)) div w]"
    using chunkLoop_Ok [OF Cons.prems(1) ch] seg(1,2) by (simp add: add.commute)
  with Cons.IH [OF Cons.prems(1) re] show ?case by simp
qed

lemma segmentLoop_within:
  assumes "segmentLoop buf w segs acc = Ok out" and "s \<in> set segs"
  shows "unat (Offset s) + unat (Size s) \<le> cap buf"
  using assms
proof (induction segs arbitrary: acc)
  case Nil
  then show ?case by simp
next
  case (Cons a rest)
  from Cons.prems(1) obtain sc acc' where sc: "reslice buf (unat (Offset a)) (unat (Offset a + Size a)) = Ok sc"
    and re: "segmentLoop buf w rest acc' = Ok out"
    by (auto simp: bind_eq_Ok)
  show ?case
  proof (cases "s = a")
    case True
    then show ?thesis using reslice_segment(3) [OF sc] by simp
  next
    case False
    then show ?thesis using Cons.IH [OF re] Cons.prems(2) by simp
  qed
qed

lemma nth_concat_map:
  assumes "j < length xs" and "k < length (f (xs ! j))"
  shows "concat (map f xs) ! (sum_list (map (\<lambda>x. length (f x)) (take j xs)) + k) = f (xs ! j) ! k"
proof -
  have xs: "xs = take j xs @ (xs ! j) # drop (Suc j) xs"
    using assms(1) by (rule id_take_nth_drop)
  have "concat (map f xs) = concat (map f (take j xs)) @ f (xs ! j) @ concat (map f (drop (Suc j) xs))"
    by (subst xs) simp
  moreover have "length (concat (map f (take j xs))) = sum_list (map (\<lambda>x. length (f x)) (take j xs))"
    by (simp add: length_concat comp_def)
  ultimately show ?thesis
    using assms(2) by (simp add: nth_append)
qed

lemma chunkLoop_not_Err: "chunkLoop sc v w i acc \<noteq> Err x"
proof (induction sc v w i acc rule: chunkLoop.induct)
  case (1 sc v w i acc)
  show ?case
  proof (cases "i < len sc \<and> w \<noteq> 0")
    case True
    then have "chunkLoop sc v w i acc =
        bind (reslice sc i (i + w)) (\<lambda>chunk. chunkLoop sc v w (i + w)
          (acc @ [\<lparr>Op = EncodeToString (elems chunk), Vaddr = v + of_nat i\<rparr>]))"
      by (simp add: chunkLoop.simps [of sc v w i acc])
    moreover have "\<dots> \<noteq> Err x"
      using True by (intro bind_not_Err reslice_not_Err "1.IH") simp_all
    ultimately show ?thesis by simp
  next
    case False
    then show ?thesis
      by (auto simp: chunkLoop.simps [of sc v w i acc])
  qed
qed

lemma segmentLoop_not_Err: "segmentLoop buf w segs acc \<noteq> Err x"
proof (induction segs arbitrary: acc)
  case Nil
  show ?case by simp
next
  case (Cons s rest)
  show ?case
    unfolding segmentLoop.simps
    by (intro bind_not_Err reslice_not_Err chunkLoop_not_Err Cons.IH)
qed

lemma InstructionStream_not_Err: "InstructionStream e segs \<noteq> Err x"
  by (simp add: InstructionStream_def segmentLoop_not_Err split: option.splits)

lemma round_up_ge:
  fixes w n :: nat
  assumes "0 < w"
  shows "n \<le> ((n + (w - 1)) div w) * w"
proof -
  have "(n + (w - 1)) mod w < w"
    using assms by simp
  moreover have "(n + (w - 1)) div w * w + (n + (w - 1)) mod w = n + (w - 1)"
    by (rule div_mult_mod_eq)
  ultimately show ?thesis
    by linarith
qed

lemma chunkLoop_returns:
  assumes "0 < w"
    and "len sc \<le> i \<or> i + ((len sc - i + (w - 1)) div w) * w \<le> cap sc"
  shows "\<exists>out. chunkLoop sc v w i acc = Ok out"
  using assms
proof (induction sc v w i acc rule: chunkLoop.induct)
  case (1 sc v w i acc)
  show ?case
  proof (cases "i < len sc")
    case False
    then show ?thesis
      by (simp add: chunkLoop.simps [of sc v w i acc])
  next
    case True
    have w: "w \<noteq> 0" using "1.prems"(1) by simp
    define n where "n = (len sc - (i + w) + (w - 1)) div w"
    have cnt: "(len sc - i + (w - 1)) div w = Suc n"
      unfolding n_def using "1.prems"(1) True by (rule chunk_count_step)
    have fits: "i + Suc n * w \<le> cap sc"
      using "1.prems"(2) True unfolding cnt by simp
    then have "i + w \<le> cap sc"
      by simp
    then obtain chunk where chunk: "reslice sc i (i + w) = Ok chunk"
      by (simp add: reslice_def)
    have "len sc \<le> i + w \<or> i + w + n * w \<le> cap sc"
      using fits by simp
    then have "\<exists>out. chunkLoop sc v w (i + w)
        (acc @ [\<lparr>Op = EncodeToString (elems chunk), Vaddr = v + of_nat i\<rparr>]) = Ok out"
      unfolding n_def by (intro "1.IH" [OF True w "1.prems"(1)])
    then show ?thesis
      using True w chunk by (simp add: chunkLoop.simps [of sc v w i acc])
  qed
qed

lemma chunkLoop_Ok_fits:
  assumes "0 < w" and "chunkLoop sc v w i acc = Ok out"
  shows "len sc \<le> i \<or> i + ((len sc - i + (w - 1)) div w) * w \<le> cap sc"
  using assms
proof (induction sc v w i acc rule: chunkLoop.induct)
  case (1 sc v w i acc)
  show ?case
  proof (cases "i < len sc")
    case False
    then show ?thesis by simp
  next
    case True
    have w: "w \<noteq> 0" using "1.prems"(1) by simp
    obtain chunk where chunk: "reslice sc i (i + w) = Ok chunk"
      and rest: "chunkLoop sc v w (i + w)
                   (acc @ [\<lparr>Op = EncodeToString (elems chunk), Vaddr = v + of_nat i\<rparr>]) = Ok out"
      using "1.prems"(2) True w
      by (auto simp: chunkLoop.simps [of sc v w i acc] bind_eq_Ok)
    define n where "n = (len sc - (i + w) + (w - 1)) div w"
    have cnt: "(len sc - i + (w - 1)) div w = Suc n"
      unfolding n_def using "1.prems"(1) True by (rule chunk_count_step)
    have first: "i + w \<le> cap sc"
      using chunk by (simp add: reslice_eq_Ok)
    have "len sc \<le> i + w \<or> i + w + n * w \<le> cap sc"
      unfolding n_def using "1.IH" [OF True w "1.prems"(1) rest] .
    then have "i + Suc n * w \<le> cap sc"
    proof
      assume "len sc \<le> i + w"
      then have "n = 0"
        unfolding n_def using "1.prems"(1) by simp
      with first show ?thesis by simp
    next
      assume "i + w + n * w \<le> cap sc"
      then show ?thesis by simp
    qed
    then show ?thesis
      unfolding cnt by simp
  qed
qed

lemma reslice_segment_iff:
  fixes off sz :: uint
  shows "(\<exists>sc. reslice buf (unat off) (unat (off + sz)) = Ok sc) \<longleftrightarrow>
     unat off + unat sz < 2 ^ 64 \<and> unat off + unat sz \<le> cap buf"
proof
  assume "\<exists>sc. reslice buf (unat off) (unat (off + sz)) = Ok sc"
  then have le: "unat off \<le> unat (off + sz)" and c: "unat (off + sz) \<le> cap buf"
    by (auto simp: reslice_eq_Ok)
  from le have "off \<le> off + sz" by (simp add: word_le_nat_alt)
  then have "unat off + unat sz < 2 ^ LENGTH(64)"
    by (simp only: no_olen_add_nat)
  moreover from this have "unat (off + sz) = unat off + unat sz"
    by (simp only: unat_add_lem)
  ultimately show "unat off + unat sz < 2 ^ 64 \<and> unat off + unat sz \<le> cap buf"
    using c by simp
next
  assume a: "unat off + unat sz < 2 ^ 64 \<and> unat off + unat sz \<le> cap buf"
  then have "unat off + unat sz < 2 ^ LENGTH(64)"
    by simp
  then have "unat (off + sz) = unat off + unat sz"
    by (simp only: unat_add_lem)
  with a show "\<exists>sc. reslice buf (unat off) (unat (off + sz)) = Ok sc"
    by (simp add: reslice_def)
qed

lemma segmentLoop_returns:
  assumes "0 < w"
    and "\<forall>s\<in>set segs. unat (Offset s) + unat (Size s) < 2 ^ 64
           \<and> unat (Offset s) + ((unat (Size s) + (w - 1)) div w) * w \<le> cap buf"
  shows "\<exists>out. segmentLoop buf w segs acc = Ok out"
  using assms
proof (induction segs arbitrary: acc)
  case Nil
  show ?case by simp
next
  case (Cons s rest)
  have nw: "unat (Offset s) + unat (Size s) < 2 ^ 64"
    and up: "unat (Offset s) + ((unat (Size s) + (w - 1)) div w) * w \<le> cap buf"
    using Cons.prems(2) by simp_all
  have "unat (Size s) \<le> ((unat (Size s) + (w - 1)) div w) * w"
    using Cons.prems(1) by (rule round_up_ge)
  with up have "unat (Offset s) + unat (Size s) \<le> cap buf"
    by simp
  with nw obtain sc where sc: "reslice buf (unat (Offset s)) (unat (Offset s + Size s)) = Ok sc"
    using reslice_segment_iff [of buf "Offset s" "Size s"] by blast
  note seg = reslice_segment [OF sc]
  have "cap sc = cap buf - unat (Offset s)"
    using seg(1) by (simp add: cap_def)
  with up have "0 + ((len sc - 0 + (w - 1)) div w) * w \<le> cap sc"
    using seg(2) by simp
  then obtain acc' where ch: "chunkLoop sc (VAddr s) w 0 acc = Ok acc'"
    using chunkLoop_returns [OF Cons.prems(1), of sc 0 "VAddr s" acc] by blast
  from Cons.IH [OF Cons.prems(1), of acc'] Cons.prems(2)
  obtain out where "segmentLoop buf w rest acc' = Ok out"
    by auto
  with sc ch show ?case by simp
qed

lemma segmentLoop_Ok_fits:
  assumes "0 < w" and "segmentLoop buf w segs acc = Ok out"
  shows "\<forall>s\<in>set segs. unat (Offset s) + unat (Size s) < 2 ^ 64
           \<and> unat (Offset s) + ((unat (Size s) + (w - 1)) div w) * w \<le> cap buf"
  using assms
proof (induction segs arbitrary: acc)
  case Nil
  show ?case by simp
next
  case (Cons s rest)
  from Cons.prems(2) obtain sc acc' where sc: "reslice buf (unat (Offset s)) (unat (Offset s + Size s)) = Ok sc"
    and ch: "chunkLoop sc (VAddr s) w 0 acc = Ok acc'"
    and re: "segmentLoop buf w rest acc' = Ok out"
    by (auto simp: bind_eq_Ok)
  note seg = reslice_segment [OF sc]
  have nw: "unat (Offset s) + unat (Size s) < 2 ^ 64"
    using sc reslice_segment_iff [of buf "Offset s" "Size s"] by blast
  have c: "cap sc = cap buf - unat (Offset s)"
    using seg(1) by (simp add: cap_def)
  have "len sc \<le> 0 \<or> 0 + ((len sc - 0 + (w - 1)) div w) * w \<le> cap sc"
    using Cons.prems(1) ch by (rule chunkLoop_Ok_fits)
  then have "((unat (Size s) + (w - 1)) div w) * w \<le> cap sc"
    using seg(2) Cons.prems(1) by auto
  then have "unat (Offset s) + ((unat (Size s) + (w - 1)) div w) * w \<le> cap buf"
    using c seg(3) by simp
  with nw Cons.IH [OF Cons.prems(1) re] show ?case
    by simp
qed

lemma InstructionStream_chunk_at:
  assumes "InstructionStream e segs = Ok stream"
    and "isa e = Some d"
    and "j < length segs"
    and "(k + 1) * InstructionSize d \<le> unat (Size (segs ! j))"
  shows "stream ! (sum_list (map (\<lambda>s. (unat (Size s) + (InstructionSize d - 1)) div InstructionSize d)
                      (take j segs)) + k) =
           \<lparr>Op = EncodeToString (take (InstructionSize d)
                   (drop (unat (Offset (segs ! j)) + k * InstructionSize d) (arr (contents e)))),
            Vaddr = VAddr (segs ! j) + of_nat (k * InstructionSize d)\<rparr>
         \<and> unat (Offset (segs ! j)) + (k + 1) * InstructionSize d \<le> cap (contents e)
         \<and> InstructionStream (e\<lparr>endianness := en\<rparr>) segs = Ok stream"
proof -
  define w where "w = InstructionSize d"
  have w: "0 < w" by (simp add: w_def InstructionSize_pos)
  define f where "f = (\<lambda>s :: segment. map (\<lambda>q.
             \<lparr>Op = EncodeToString (take w (drop (unat (Offset s) + q * w) (arr (contents e)))),
              Vaddr = VAddr s + of_nat (q * w)\<rparr>) [0..<(unat (Size s) + (w - 1)) div w])"
  have loop: "segmentLoop (contents e) w segs [] = Ok stream"
    using assms(1,2) by (simp add: InstructionStream_def w_def)
  have stream: "stream = concat (map f segs)"
    using segmentLoop_Ok [OF w loop] by (simp add: f_def)
  have "(k + 1) * w \<le> unat (Size (segs ! j))"
    using assms(4) by (simp add: w_def)
  then have k: "k < (unat (Size (segs ! j)) + (w - 1)) div w"
    using w by (simp only: chunk_index_bound)
  then have kf: "k < length (f (segs ! j))"
    by (simp add: f_def)
  have "stream ! (sum_list (map (\<lambda>x. length (f x)) (take j segs)) + k) = f (segs ! j) ! k"
    unfolding stream using assms(3) kf by (rule nth_concat_map)
  moreover have "f (segs ! j) ! k =
       \<lparr>Op = EncodeToString (take w (drop (unat (Offset (segs ! j)) + k * w) (arr (contents e)))),
        Vaddr = VAddr (segs ! j) + of_nat (k * w)\<rparr>"
    using k by (simp add: f_def)
  moreover have "(\<lambda>x. length (f x)) = (\<lambda>s. (unat (Size s) + (w - 1)) div w)"
    by (simp add: f_def)
  moreover have "unat (Offset (segs ! j)) + (k + 1) * w \<le> cap (contents e)"
    using segmentLoop_within [OF loop, of "segs ! j"] assms(3) \<open>(k + 1) * w \<le> unat (Size (segs ! j))\<close>
    by simp
  moreover have "InstructionStream (e\<lparr>endianness := en\<rparr>) segs = Ok stream"
    using assms(1,2) by (simp add: InstructionStream_def)
  ultimately show ?thesis
    by (simp add: w_def)
qed

text \<open>
  Claim C4: for every chunk of the instruction width that lies inside an executable
  segment and starts at a multiple of the width, the instruction emitted for it has as
  opcode the hex encoding of the bytes of the chunk in file order, whatever the byte
  order of the image, and as address the virtual address of the segment plus the offset
  of the chunk in the segment (a \<open>uint\<close> addition).

  \<open>InstructionStream\<close> returns a stream exactly when every segment, with its size
  rounded up to a multiple of the width, lies inside the capacity of the buffer (first
  conjunct; on the other segment lists it panics, which is the subject of C1 and C2).
  The stream it returns is then the chunks of the segments, in order (second conjunct):
  chunk \<open>k\<close> of segment \<open>j\<close> is found after the instructions of the segments before
  \<open>j\<close> and the \<open>k\<close> chunks before it, its bytes are inside the capacity of the buffer,
  and the stream is the same for any value of the field \<open>endianness\<close> (third conjunct).
  The last conjunct is the stream of the two executable segments of \<open>image_three\<close>.
\<close>

theorem InstructionStream_chunk:
  fixes e :: "'t Elf"
  assumes "isa e = Some d"
  shows "((\<exists>stream. InstructionStream e segs = Ok stream) \<longleftrightarrow>
            (\<forall>s\<in>set segs. unat (Offset s) + unat (Size s) < 2 ^ 64
               \<and> unat (Offset s)
                   + ((unat (Size s) + (InstructionSize d - 1)) div InstructionSize d)
                     * InstructionSize d \<le> cap (contents e)))
       \<and> (InstructionStream e segs = Ok stream \<longrightarrow>
            stream = concat (map (\<lambda>s. map (\<lambda>q.
               \<lparr>Op = EncodeToString (take (InstructionSize d)
                       (drop (unat (Offset s) + q * InstructionSize d) (arr (contents e)))),
                Vaddr = VAddr s + of_nat (q * InstructionSize d)\<rparr>)
               [0..<(unat (Size s) + (InstructionSize d - 1)) div InstructionSize d]) segs))
       \<and> (InstructionStream e segs = Ok stream \<and> j < length segs
            \<and> (k + 1) * InstructionSize d \<le> unat (Size (segs ! j)) \<longrightarrow>
            stream ! (sum_list (map (\<lambda>s. (unat (Size s) + (InstructionSize d - 1))
                                          div InstructionSize d) (take j segs)) + k) =
              \<lparr>Op = EncodeToString (take (InstructionSize d)
                      (drop (unat (Offset (segs ! j)) + k * InstructionSize d) (arr (contents e)))),
               Vaddr = VAddr (segs ! j) + of_nat (k * InstructionSize d)\<rparr>
            \<and> unat (Offset (segs ! j)) + (k + 1) * InstructionSize d \<le> cap (contents e)
            \<and> InstructionStream (e\<lparr>endianness := en\<rparr>) segs = Ok stream)
       \<and> InstructionStream (elfOf 32 ''little'' (Some ARM) (mkslice image_three) :: 't Elf)
            [\<lparr>VAddr = 0x1000, Offset = 0x94, Size = 8\<rparr>, \<lparr>VAddr = 0x3000, Offset = 0xa0, Size = 4\<rparr>] =
          Ok [\<lparr>Op = ''e1a00000'', Vaddr = 0x1000\<rparr>, \<lparr>Op = ''e12fff1e'', Vaddr = 0x1004\<rparr>,
              \<lparr>Op = ''e1a01002'', Vaddr = 0x3000\<rparr>]"
proof (intro conjI impI)
  have w: "0 < InstructionSize d"
    by (rule InstructionSize_pos)
  have unfold: "InstructionStream e segs = segmentLoop (contents e) (InstructionSize d) segs []"
    using assms by (simp add: InstructionStream_def)
  show "(\<exists>stream. InstructionStream e segs = Ok stream) \<longleftrightarrow>
            (\<forall>s\<in>set segs. unat (Offset s) + unat (Size s) < 2 ^ 64
               \<and> unat (Offset s)
                   + ((unat (Size s) + (InstructionSize d - 1)) div InstructionSize d)
                     * InstructionSize d \<le> cap (contents e))"
    unfolding unfold
    using segmentLoop_returns [OF w, of segs "contents e" "[]"] segmentLoop_Ok_fits [OF w]
    by blast
  show "stream = concat (map (\<lambda>s. map (\<lambda>q.
               \<lparr>Op = EncodeToString (take (InstructionSize d)
                       (drop (unat (Offset s) + q * InstructionSize d) (arr (contents e)))),
                Vaddr = VAddr s + of_nat (q * InstructionSize d)\<rparr>)
               [0..<(unat (Size s) + (InstructionSize d - 1)) div InstructionSize d]) segs)"
    if "InstructionStream e segs = Ok stream"
    using segmentLoop_Ok [OF w that [unfolded unfold]] by simp
  show "InstructionStream (elfOf 32 ''little'' (Some ARM) (mkslice image_three) :: 't Elf)
            [\<lparr>VAddr = 0x1000, Offset = 0x94, Size = 8\<rparr>, \<lparr>VAddr = 0x3000, Offset = 0xa0, Size = 4\<rparr>] =
          Ok [\<lparr>Op = ''e1a00000'', Vaddr = 0x1000\<rparr>, \<lparr>Op = ''e12fff1e'', Vaddr = 0x1004\<rparr>,
              \<lparr>Op = ''e1a01002'', Vaddr = 0x3000\<rparr>]"
    by (simp add: load_defs read_defs elfOf_def mkslice_def image_three_def hextable_def
        EncodeToString_def)
next
  assume a: "InstructionStream e segs = Ok stream \<and> j < length segs
            \<and> (k + 1) * InstructionSize d \<le> unat (Size (segs ! j))"
  then have s: "InstructionStream e segs = Ok stream" and j: "j < length segs"
    and k: "(k + 1) * InstructionSize d \<le> unat (Size (segs ! j))"
    by simp_all
  note at = InstructionStream_chunk_at [OF s assms j k, of en]
  from at show "stream ! (sum_list (map (\<lambda>s. (unat (Size s) + (InstructionSize d - 1))
                                          div InstructionSize d) (take j segs)) + k) =
              \<lparr>Op = EncodeToString (take (InstructionSize d)
                      (drop (unat (Offset (segs ! j)) + k * InstructionSize d) (arr (contents e)))),
               Vaddr = VAddr (segs ! j) + of_nat (k * InstructionSize d)\<rparr>"
    by (rule conjunct1)
  from at show "unat (Offset (segs ! j)) + (k + 1) * InstructionSize d \<le> cap (contents e)"
    by (elim conjE)
  from at show "InstructionStream (e\<lparr>endianness := en\<rparr>) segs = Ok stream"
    by (elim conjE)
qed

theorem InstructionStream_chunk_witness:
  "(\<exists>stream. InstructionStream (elfOf 32 ''little'' (Some ARM) (mkslice image_three) :: unit Elf)
       [\<lparr>VAddr = 0x1000, Offset = 0x94, Size = 8\<rparr>, \<lparr>VAddr = 0x3000, Offset = 0xa0, Size = 4\<rparr>]
       = Ok stream
     \<and> stream ! 2 = \<lparr>Op = EncodeToString (take 4 (drop 0xa0 image_three)), Vaddr = 0x3000\<rparr>
     \<and> stream ! 2 = \<lparr>Op = ''e1a01002'', Vaddr = 0x3000\<rparr>
     \<and> InstructionStream
         ((elfOf 32 ''little'' (Some ARM) (mkslice image_three) :: unit Elf)\<lparr>endianness := ''big''\<rparr>)
         [\<lparr>VAddr = 0x1000, Offset = 0x94, Size = 8\<rparr>, \<lparr>VAddr = 0x3000, Offset = 0xa0, Size = 4\<rparr>]
         = Ok stream)
   \<and> \<not> (\<exists>stream. InstructionStream (elfOf 32 ''little'' (Some ARM) (mkslice image_tail5) :: unit Elf)
       [\<lparr>VAddr = 0x1000, Offset = 0x54, Size = 5\<rparr>] = Ok stream)"
proof -
  let ?e = "elfOf 32 ''little'' (Some ARM) (mkslice image_three) :: unit Elf"
  let ?segs = "[\<lparr>VAddr = 0x1000, Offset = 0x94, Size = 8\<rparr>,
                \<lparr>VAddr = 0x3000, Offset = 0xa0, Size = 4\<rparr>] :: segment list"
  have d: "isa ?e = Some ARM"
    by (simp add: elfOf_def)
  note total = InstructionStream_chunk [OF d, where segs = ?segs]
  have fits: "\<forall>s\<in>set ?segs. unat (Offset s) + unat (Size s) < 2 ^ 64
               \<and> unat (Offset s)
                   + ((unat (Size s) + (InstructionSize ARM - 1)) div InstructionSize ARM)
                     * InstructionSize ARM \<le> cap (contents ?e)"
    by (simp add: elfOf_def mkslice_def cap_def image_three_def)
  from total [THEN conjunct1, THEN iffD2, OF fits]
  obtain stream where s: "InstructionStream ?e ?segs = Ok stream"
    by blast
  have at: "stream ! 2 = \<lparr>Op = EncodeToString (take 4 (drop 0xa0 image_three)), Vaddr = 0x3000\<rparr>"
    and en: "InstructionStream (?e\<lparr>endianness := ''big''\<rparr>) ?segs = Ok stream"
    using InstructionStream_chunk [OF d, where segs = ?segs and stream = stream and j = 1
        and k = 0 and en = "''big''", THEN conjunct2, THEN conjunct2, THEN conjunct1] s
    by (simp_all add: elfOf_def mkslice_def)
  have hex: "EncodeToString (take 4 (drop 0xa0 image_three)) = ''e1a01002''"
    by (simp add: image_three_def EncodeToString_def hextable_def)
  let ?t = "elfOf 32 ''little'' (Some ARM) (mkslice image_tail5) :: unit Elf"
  have dt: "isa ?t = Some ARM"
    by (simp add: elfOf_def)
  have "\<not> (\<forall>s\<in>set [\<lparr>VAddr = 0x1000, Offset = 0x54, Size = 5\<rparr>].
             unat (Offset s) + unat (Size s) < 2 ^ 64
               \<and> unat (Offset s)
                   + ((unat (Size s) + (InstructionSize ARM - 1)) div InstructionSize ARM)
                     * InstructionSize ARM \<le> cap (contents ?t))"
    by (simp add: elfOf_def mkslice_def cap_def image_tail5_def)
  with InstructionStream_chunk [OF dt, where segs = "[\<lparr>VAddr = 0x1000, Offset = 0x54, Size = 5\<rparr>]",
      THEN conjunct1]
  have no: "\<not> (\<exists>stream. InstructionStream ?t [\<lparr>VAddr = 0x1000, Offset = 0x54, Size = 5\<rparr>] = Ok stream)"
    by blast
  from s at en hex no show ?thesis
    by auto
qed

text \<open>
  Claim C1: for a segment whose size is not a multiple of the instruction width,
  \<open>InstructionStream\<close> emits the whole instructions only (size div width of them), drops
  the remainder, and neither fails nor panics.

  The loop runs while \<open>i < len(segmentContents)\<close> and takes
  \<open>segmentContents[i : i+instructionSize]\<close>, so the last chunk of such a segment reaches
  past the end of the segment: whenever the loop returns, it has emitted the size
  divided by the width rounded up (\<open>segmentLoop_Ok\<close>). For a segment of 5 bytes and a width of 4: when the
  segment ends the buffer and the buffer has no spare capacity, the slice expression
  panics (first and second conjunct); when bytes follow in the file, a second
  instruction is emitted, made of the last byte of the segment and the three bytes
  after it (third conjunct); when the segment ends the buffer and the buffer has spare
  capacity, the second instruction takes its last three bytes from there (fourth
  conjunct).
\<close>

theorem InstructionStream_remainder_not_dropped:
  "InstructionStream (elfOf 32 ''little'' (Some ARM) (mkslice image_tail5))
       [\<lparr>VAddr = 0x1000, Offset = 0x54, Size = 5\<rparr>] = Panic
   \<and> NewElf Trie (mkslice image_tail5) Map.empty = Panic
   \<and> InstructionStream (elfOf 32 ''little'' (Some ARM) (mkslice image_tail5_more))
       [\<lparr>VAddr = 0x1000, Offset = 0x54, Size = 5\<rparr>] =
       Ok [\<lparr>Op = ''e1a00000'', Vaddr = 0x1000\<rparr>, \<lparr>Op = ''e12fff1e'', Vaddr = 0x1004\<rparr>]
   \<and> InstructionStream
       (elfOf 32 ''little'' (Some ARM) \<lparr>arr = image_tail5 @ [0, 0, 0], len = 89\<rparr>)
       [\<lparr>VAddr = 0x1000, Offset = 0x54, Size = 5\<rparr>] =
       Ok [\<lparr>Op = ''e1a00000'', Vaddr = 0x1000\<rparr>, \<lparr>Op = ''e1000000'', Vaddr = 0x1004\<rparr>]"
  by (simp add: load_defs read_defs elfOf_def mkslice_def image_tail5_def
      image_tail5_more_def hextable_def EncodeToString_def)

section \<open>Image construction, step by step\<close>

lemma NewElf_Ok:
  fixes Trie :: "Instruction list \<Rightarrow> ISA option \<Rightarrow> 't"
  shows "NewElf Trie c args = Ok img \<longleftrightarrow>
     (\<exists>a en elf printed segs stream.
        elfArch c = Ok a \<and> elfEndianness c = Ok en
      \<and> setISA (elfOf a en None c :: 't Elf) (args ''---thumb'' \<noteq> None) = Ok (elf, printed)
      \<and> locateExecutableSegments elf = Ok segs
      \<and> InstructionStream elf segs = Ok stream
      \<and> stream \<noteq> []
      \<and> img = elf\<lparr>reverseInstructionTrie := Some (Trie stream (isa elf))\<rparr>)"
  by (auto simp: NewElf_def elfOf_def bind_eq_Ok split: if_splits simp del: not_None_eq)

lemma NewElf_Err:
  fixes Trie :: "Instruction list \<Rightarrow> ISA option \<Rightarrow> 't"
  shows "NewElf Trie c args = Err x \<longleftrightarrow>
     elfArch c = Err x
   \<or> (\<exists>a. elfArch c = Ok a \<and>
        (elfEndianness c = Err x
       \<or> (\<exists>en. elfEndianness c = Ok en \<and>
            (setISA (elfOf a en None c :: 't Elf) (args ''---thumb'' \<noteq> None) = Err x
           \<or> (\<exists>elf printed.
                 setISA (elfOf a en None c :: 't Elf) (args ''---thumb'' \<noteq> None)
                   = Ok (elf, printed) \<and>
                 (locateExecutableSegments elf = Err x
                \<or> (\<exists>segs. locateExecutableSegments elf = Ok segs \<and>
                      (InstructionStream elf segs = Err x
                     \<or> InstructionStream elf segs = Ok [] \<and> x = ErrNoSegments))))))))"
  by (auto simp: NewElf_def elfOf_def bind_eq_Ok bind_eq_Err split: if_splits
      simp del: not_None_eq)

text \<open>
  Claim C8: \<open>NewElf\<close> returns an image only when every step succeeded, and an error
  with no image as soon as a step fails: \<open>Ok img\<close> is the return \<open>elf, nil\<close> and \<open>Err x\<close>
  the return \<open>nil, err\<close>. The image is returned exactly when \<open>elfArch\<close>,
  \<open>elfEndianness\<close>, \<open>setISA\<close> and \<open>locateExecutableSegments\<close> succeed and the instruction
  stream is not empty; the error \<open>x\<close> is returned exactly when the first step that fails
  fails with \<open>x\<close>, or every step succeeds, the stream is empty and \<open>x\<close> is the
  no-executable-segments error.
\<close>

theorem NewElf_all_or_nothing:
  fixes Trie :: "Instruction list \<Rightarrow> ISA option \<Rightarrow> 't"
  shows "(NewElf Trie c args = Ok img \<longleftrightarrow>
       (\<exists>a en elf printed segs stream.
          elfArch c = Ok a \<and> elfEndianness c = Ok en
        \<and> setISA (elfOf a en None c :: 't Elf) (args ''---thumb'' \<noteq> None) = Ok (elf, printed)
        \<and> locateExecutableSegments elf = Ok segs
        \<and> InstructionStream elf segs = Ok stream
        \<and> stream \<noteq> []
        \<and> img = elf\<lparr>reverseInstructionTrie := Some (Trie stream (isa elf))\<rparr>))
   \<and> (NewElf Trie c args = Err x \<longleftrightarrow>
         elfArch c = Err x
       \<or> (\<exists>a. elfArch c = Ok a \<and> elfEndianness c = Err x)
       \<or> (\<exists>a en. elfArch c = Ok a \<and> elfEndianness c = Ok en
             \<and> setISA (elfOf a en None c :: 't Elf) (args ''---thumb'' \<noteq> None) = Err x)
       \<or> (\<exists>a en elf printed. elfArch c = Ok a \<and> elfEndianness c = Ok en
             \<and> setISA (elfOf a en None c :: 't Elf) (args ''---thumb'' \<noteq> None)
                 = Ok (elf, printed)
             \<and> locateExecutableSegments elf = Err x)
       \<or> (\<exists>a en elf printed segs. elfArch c = Ok a \<and> elfEndianness c = Ok en
             \<and> setISA (elfOf a en None c :: 't Elf) (args ''---thumb'' \<noteq> None)
                 = Ok (elf, printed)
             \<and> locateExecutableSegments elf = Ok segs
             \<and> InstructionStream elf segs = Ok []
             \<and> x = ErrNoSegments))
   \<and> kind ErrNoSegments = NoExecutableSegments"
proof (intro conjI)
  show "NewElf Trie c args = Ok img \<longleftrightarrow>
       (\<exists>a en elf printed segs stream.
          elfArch c = Ok a \<and> elfEndianness c = Ok en
        \<and> setISA (elfOf a en None c :: 't Elf) (args ''---thumb'' \<noteq> None) = Ok (elf, printed)
        \<and> locateExecutableSegments elf = Ok segs
        \<and> InstructionStream elf segs = Ok stream
        \<and> stream \<noteq> []
        \<and> img = elf\<lparr>reverseInstructionTrie := Some (Trie stream (isa elf))\<rparr>)"
    by (rule NewElf_Ok)
  show "NewElf Trie c args = Err x \<longleftrightarrow>
         elfArch c = Err x
       \<or> (\<exists>a. elfArch c = Ok a \<and> elfEndianness c = Err x)
       \<or> (\<exists>a en. elfArch c = Ok a \<and> elfEndianness c = Ok en
             \<and> setISA (elfOf a en None c :: 't Elf) (args ''---thumb'' \<noteq> None) = Err x)
       \<or> (\<exists>a en elf printed. elfArch c = Ok a \<and> elfEndianness c = Ok en
             \<and> setISA (elfOf a en None c :: 't Elf) (args ''---thumb'' \<noteq> None)
                 = Ok (elf, printed)
             \<and> locateExecutableSegments elf = Err x)
       \<or> (\<exists>a en elf printed segs. elfArch c = Ok a \<and> elfEndianness c = Ok en
             \<and> setISA (elfOf a en None c :: 't Elf) (args ''---thumb'' \<noteq> None)
                 = Ok (elf, printed)
             \<and> locateExecutableSegments elf = Ok segs
             \<and> InstructionStream elf segs = Ok []
             \<and> x = ErrNoSegments)"
    unfolding NewElf_Err using InstructionStream_not_Err by blast
  show "kind ErrNoSegments = NoExecutableSegments"
    by simp
qed

theorem NewElf_all_or_nothing_witness:
  "NewElf (\<lambda>stream d. stream) (mkslice image_three) Map.empty =
      Ok ((elfOf 32 ''little'' (Some ARM) (mkslice image_three))
           \<lparr>reverseInstructionTrie :=
              Some [\<lparr>Op = ''e1a00000'', Vaddr = 0x1000\<rparr>, \<lparr>Op = ''e12fff1e'', Vaddr = 0x1004\<rparr>,
                    \<lparr>Op = ''e1a01002'', Vaddr = 0x3000\<rparr>]\<rparr>)
   \<and> elfArch (mkslice image_three) = Ok 32
   \<and> elfEndianness (mkslice image_three) = Ok ''little''
   \<and> elfArch (mkslice (take 3 image_three)) = Err ErrArchTooShort
   \<and> NewElf (\<lambda>stream d. stream) (mkslice (take 3 image_three)) Map.empty = Err ErrArchTooShort"
proof -
  have ev: "NewElf (\<lambda>stream d. stream) (mkslice image_three) Map.empty =
      Ok ((elfOf 32 ''little'' (Some ARM) (mkslice image_three))
           \<lparr>reverseInstructionTrie :=
              Some [\<lparr>Op = ''e1a00000'', Vaddr = 0x1000\<rparr>, \<lparr>Op = ''e12fff1e'', Vaddr = 0x1004\<rparr>,
                    \<lparr>Op = ''e1a01002'', Vaddr = 0x3000\<rparr>]\<rparr>)"
    by (simp add: load_defs read_defs elfOf_def mkslice_def image_three_def hextable_def
        EncodeToString_def)
  have ar: "elfArch (mkslice (take 3 image_three)) = Err ErrArchTooShort"
    by (simp add: elfArch_def mkslice_def image_three_def)
  note atomic = NewElf_all_or_nothing [where Trie = "\<lambda>stream d. stream" and args = Map.empty]
  from atomic [where c = "mkslice image_three", THEN conjunct1, THEN iffD1, OF ev]
  have "elfArch (mkslice image_three) = Ok 32 \<and> elfEndianness (mkslice image_three) = Ok ''little''"
    by (auto simp: elfArch_def elfEndianness_def mkslice_def index_def image_three_def)
  moreover from atomic [where c = "mkslice (take 3 image_three)" and x = ErrArchTooShort,
      THEN conjunct2, THEN conjunct1, THEN iffD2, OF disjI1, OF ar]
  have "NewElf (\<lambda>stream d. stream) (mkslice (take 3 image_three)) Map.empty = Err ErrArchTooShort" .
  ultimately show ?thesis
    using ev ar by simp
qed

section \<open>ISA selection\<close>

lemma setISA_Ok:
  assumes "fieldValue e ''isa'' elfHeader 0 = Ok v" and "setISA e thumb = Ok (elf, printed)"
  shows "isa elf = (if v = 0x28 then (if thumb then Some Thumb else Some ARM)
                    else if v = 0xb7 then Some AArch64 else Some X86)"
  using assms by (auto simp: setISA_def supportedISAs_def split: if_splits)

text \<open>
  Claim C7: the ISA is selected from the identifier byte and the mode hint. For the ARM
  identifier 0x28 the hint selects Thumb, and without the hint ARM is selected and one
  advisory line is printed; for the other supported identifiers (0x03 and 0x3e for x86,
  0xb7 for AArch64) the descriptor of the identifier is selected whether the hint is
  there or not (with the hint, one line says that it is ignored); for every other
  identifier \<open>setISA\<close> fails with \<open>errors.ErrUnsupported\<close>, and so does \<open>NewElf\<close>. The
  hint is the presence of the key \<open>---thumb\<close> in the arguments of \<open>NewElf\<close>: the image
  that \<open>NewElf\<close> returns has the ISA selected that way.
\<close>

theorem setISA_selection:
  fixes e :: "'t Elf" and Trie :: "Instruction list \<Rightarrow> ISA option \<Rightarrow> 't"
  assumes "fieldValue e ''isa'' elfHeader 0 = Ok v"
  shows "(v = 0x28 \<and> thumb \<longrightarrow> setISA e thumb = Ok (e\<lparr>isa := Some Thumb\<rparr>, []))
       \<and> (v = 0x28 \<and> \<not> thumb \<longrightarrow> setISA e thumb = Ok (e\<lparr>isa := Some ARM\<rparr>, [noticeARM]))
       \<and> (v = 0x03 \<or> v = 0x3e \<longrightarrow>
            setISA e thumb = Ok (e\<lparr>isa := Some X86\<rparr>, if thumb then [noticeIgnored] else []))
       \<and> (v = 0xb7 \<longrightarrow>
            setISA e thumb = Ok (e\<lparr>isa := Some AArch64\<rparr>, if thumb then [noticeIgnored] else []))
       \<and> (v \<noteq> 0x03 \<and> v \<noteq> 0x3e \<and> v \<noteq> 0x28 \<and> v \<noteq> 0xb7 \<longrightarrow>
            setISA e thumb = Err ErrUnsupported \<and> kind ErrUnsupported = UnsupportedISA)
       \<and> (elfArch c = Ok (arch e) \<and> elfEndianness c = Ok (endianness e)
            \<and> e = elfOf (arch e) (endianness e) None c \<longrightarrow>
            (v \<noteq> 0x03 \<and> v \<noteq> 0x3e \<and> v \<noteq> 0x28 \<and> v \<noteq> 0xb7 \<longrightarrow>
               NewElf Trie c args = Err ErrUnsupported)
          \<and> (NewElf Trie c args = Ok img \<longrightarrow>
               isa img = (if v = 0x28 then (if args ''---thumb'' \<noteq> None then Some Thumb else Some ARM)
                          else if v = 0xb7 then Some AArch64 else Some X86)))"
proof -
  have unsupported: "setISA e th = Err ErrUnsupported"
    if "v \<noteq> 0x03 \<and> v \<noteq> 0x3e \<and> v \<noteq> 0x28 \<and> v \<noteq> 0xb7" for th
    using assms that by (simp add: setISA_def supportedISAs_def)
  have new_err: "NewElf Trie c args = Err ErrUnsupported"
    if "v \<noteq> 0x03 \<and> v \<noteq> 0x3e \<and> v \<noteq> 0x28 \<and> v \<noteq> 0xb7"
      and "elfArch c = Ok (arch e)" and "elfEndianness c = Ok (endianness e)"
      and "e = elfOf (arch e) (endianness e) None c"
  proof -
    have "setISA (elfOf (arch e) (endianness e) None c :: 't Elf) (args ''---thumb'' \<noteq> None)
        = Err ErrUnsupported"
      using unsupported [OF that(1)] that(4) by metis
    with that(2,3) show ?thesis
      unfolding NewElf_Err by blast
  qed
  have new_ok: "isa img = (if v = 0x28 then (if args ''---thumb'' \<noteq> None then Some Thumb else Some ARM)
                          else if v = 0xb7 then Some AArch64 else Some X86)"
    if "NewElf Trie c args = Ok img"
      and "elfArch c = Ok (arch e)" and "elfEndianness c = Ok (endianness e)"
      and "e = elfOf (arch e) (endianness e) None c"
  proof -
    from that(1) obtain a en elf printed segs stream where
      "elfArch c = Ok a" "elfEndianness c = Ok en"
      and set: "setISA (elfOf a en None c :: 't Elf) (args ''---thumb'' \<noteq> None) = Ok (elf, printed)"
      and img: "img = elf\<lparr>reverseInstructionTrie := Some (Trie stream (isa elf))\<rparr>"
      unfolding NewElf_Ok by blast
    with that(2,3) have "a = arch e" "en = endianness e"
      by simp_all
    with set that(4) have "setISA e (args ''---thumb'' \<noteq> None) = Ok (elf, printed)"
      by metis
    from setISA_Ok [OF assms this] img show ?thesis
      by simp
  qed
  show ?thesis
    using assms unsupported new_err new_ok
    by (auto simp: setISA_def supportedISAs_def simp del: not_None_eq)
qed

theorem setISA_selection_witness:
  "fieldValue (elfOf 32 ''little'' None (mkslice image_three) :: unit Elf) ''isa'' elfHeader 0
     = Ok 0x28
   \<and> setISA (elfOf 32 ''little'' None (mkslice image_three) :: unit Elf) True =
       Ok (elfOf 32 ''little'' (Some Thumb) (mkslice image_three), [])
   \<and> setISA (elfOf 32 ''little'' None (mkslice image_three) :: unit Elf) False =
       Ok (elfOf 32 ''little'' (Some ARM) (mkslice image_three), [noticeARM])"
proof -
  have ev: "fieldValue (elfOf 32 ''little'' None (mkslice image_three) :: unit Elf)
      ''isa'' elfHeader 0 = Ok 0x28"
    by (simp add: read_defs elfOf_def mkslice_def image_three_def)
  from setISA_selection [OF ev, where thumb = True] setISA_selection [OF ev, where thumb = False] ev
  show ?thesis
    by (simp add: elfOf_def)
qed

section \<open>The program header table\<close>

lemma executable_bit: "0 < flags AND 1 \<longleftrightarrow> bit flags 0" for flags :: uint
  by (simp add: word_gt_0 and_one_eq bit_0 odd_iff_mod_2_eq_one)

lemma entryStep_Ok:
  assumes "entryStep e off segs = Ok out"
  obtains flags where "fieldValue e ''flags'' programHeaderEntry off = Ok flags"
    and "\<not> bit flags 0 \<Longrightarrow> out = segs"
    and "bit flags 0 \<Longrightarrow> \<exists>seg. out = segs @ [seg]
           \<and> fieldValue e ''segment offset'' programHeaderEntry off = Ok (Offset seg)
           \<and> fieldValue e ''virtual address'' programHeaderEntry off = Ok (VAddr seg)
           \<and> fieldValue e ''file size'' programHeaderEntry off = Ok (Size seg)"
proof -
  from assms obtain flags where fl: "fieldValue e ''flags'' programHeaderEntry off = Ok flags"
    and body: "(if bit flags 0 then
         bind (fieldValue e ''segment offset'' programHeaderEntry off) (\<lambda>segmentOffset.
         bind (fieldValue e ''virtual address'' programHeaderEntry off) (\<lambda>virtualAddress.
         bind (fieldValue e ''file size'' programHeaderEntry off) (\<lambda>sizeInFile.
           Ok (segs @ [\<lparr>VAddr = virtualAddress, Offset = segmentOffset, Size = sizeInFile\<rparr>]))))
       else Ok segs) = Ok out"
    by (auto simp: entryStep_def bind_eq_Ok executable_bit)
  show thesis
  proof (rule that [OF fl])
    assume "\<not> bit flags 0"
    with body show "out = segs" by simp
  next
    assume "bit flags 0"
    with body obtain so va sz where
      "fieldValue e ''segment offset'' programHeaderEntry off = Ok so"
      "fieldValue e ''virtual address'' programHeaderEntry off = Ok va"
      "fieldValue e ''file size'' programHeaderEntry off = Ok sz"
      "out = segs @ [\<lparr>VAddr = va, Offset = so, Size = sz\<rparr>]"
      by (auto simp: bind_eq_Ok)
    then show "\<exists>seg. out = segs @ [seg]
           \<and> fieldValue e ''segment offset'' programHeaderEntry off = Ok (Offset seg)
           \<and> fieldValue e ''virtual address'' programHeaderEntry off = Ok (VAddr seg)
           \<and> fieldValue e ''file size'' programHeaderEntry off = Ok (Size seg)"
      by (intro exI [of _ "\<lparr>VAddr = va, Offset = so, Size = sz\<rparr>"]) simp
  qed
qed

lemma entryLoop_Ok:
  assumes "entryLoop e t es i n acc = Ok out"
  shows "\<exists>new. out = acc @ new
     \<and> list_all2 (\<lambda>k seg.
           fieldValue e ''segment offset'' programHeaderEntry (t + of_nat k * es) = Ok (Offset seg)
         \<and> fieldValue e ''virtual address'' programHeaderEntry (t + of_nat k * es) = Ok (VAddr seg)
         \<and> fieldValue e ''file size'' programHeaderEntry (t + of_nat k * es) = Ok (Size seg))
         (filter (\<lambda>k. \<exists>flags. fieldValue e ''flags'' programHeaderEntry (t + of_nat k * es) = Ok flags
                       \<and> bit flags 0) [i..<n]) new
     \<and> (\<forall>k. i \<le> k \<and> k < n \<longrightarrow>
           (\<exists>flags. fieldValue e ''flags'' programHeaderEntry (t + of_nat k * es) = Ok flags))"
  using assms
proof (induction e t es i n acc rule: entryLoop.induct)
  case (1 e t es i n acc)
  let ?P = "\<lambda>k seg.
           fieldValue e ''segment offset'' programHeaderEntry (t + of_nat k * es) = Ok (Offset seg)
         \<and> fieldValue e ''virtual address'' programHeaderEntry (t + of_nat k * es) = Ok (VAddr seg)
         \<and> fieldValue e ''file size'' programHeaderEntry (t + of_nat k * es) = Ok (Size seg)"
  let ?Q = "\<lambda>k. \<exists>flags. fieldValue e ''flags'' programHeaderEntry (t + of_nat k * es) = Ok flags
                       \<and> bit flags 0"
  let ?R = "\<lambda>k. \<exists>flags. fieldValue e ''flags'' programHeaderEntry (t + of_nat k * es) = Ok flags"
  show ?case
  proof (cases "i < n")
    case False
    then have "out = acc"
      using "1.prems" by (simp add: entryLoop.simps [of e t es i n acc])
    with False show ?thesis by auto
  next
    case True
    obtain acc' where step: "entryStep e (t + of_nat i * es) acc = Ok acc'"
      and rest: "entryLoop e t es (Suc i) n acc' = Ok out"
      using "1.prems" True by (auto simp: entryLoop.simps [of e t es i n acc] bind_eq_Ok)
    from "1.IH" [OF True rest] obtain new where out: "out = acc' @ new"
      and new: "list_all2 ?P (filter ?Q [Suc i..<n]) new"
      and rd: "\<forall>k. Suc i \<le> k \<and> k < n \<longrightarrow> ?R k"
      by blast
    from step obtain flags where fl: "fieldValue e ''flags'' programHeaderEntry (t + of_nat i * es) = Ok flags"
      and clear: "\<not> bit flags 0 \<Longrightarrow> acc' = acc"
      and set: "bit flags 0 \<Longrightarrow> \<exists>seg. acc' = acc @ [seg] \<and> ?P i seg"
      by (rule entryStep_Ok) blast
    have upt: "[i..<n] = i # [Suc i..<n]"
      using True by (rule upt_conv_Cons)
    have rd': "\<forall>k. i \<le> k \<and> k < n \<longrightarrow> ?R k"
    proof (intro allI impI)
      fix k assume k: "i \<le> k \<and> k < n"
      show "?R k"
      proof (cases "k = i")
        case True
        with fl show ?thesis by blast
      next
        case False
        with k rd show ?thesis by simp
      qed
    qed
    show ?thesis
    proof (cases "bit flags 0")
      case False
      with fl have "\<not> ?Q i" by simp
      then have "filter ?Q [i..<n] = filter ?Q [Suc i..<n]"
        unfolding upt by simp
      with out new rd' clear [OF False] show ?thesis by auto
    next
      case True
      with fl have "?Q i" by simp
      then have f: "filter ?Q [i..<n] = i # filter ?Q [Suc i..<n]"
        unfolding upt by simp
      from set [OF True] obtain seg where seg: "acc' = acc @ [seg]" "?P i seg"
        by blast
      have "out = acc @ (seg # new)"
        using out seg(1) by simp
      moreover have "list_all2 ?P (filter ?Q [i..<n]) (seg # new)"
        unfolding f using seg(2) new by simp
      ultimately show ?thesis
        using rd' by blast
    qed
  qed
qed

lemma entryStep_skip:
  assumes "fieldValue e ''flags'' programHeaderEntry off = Ok flags" and "\<not> bit flags 0"
  shows "entryStep e off segments = Ok segments"
  using assms by (simp add: entryStep_def executable_bit)

lemma entryStep_returns:
  assumes "fieldValue e ''flags'' programHeaderEntry off = Ok flags"
    and "bit flags 0 \<longrightarrow> (\<exists>so va sz.
           fieldValue e ''segment offset'' programHeaderEntry off = Ok so
         \<and> fieldValue e ''virtual address'' programHeaderEntry off = Ok va
         \<and> fieldValue e ''file size'' programHeaderEntry off = Ok sz)"
  shows "\<exists>out. entryStep e off segs = Ok out"
proof (cases "bit flags 0")
  case False
  with assms(1) show ?thesis
    by (simp add: entryStep_skip)
next
  case True
  with assms(2) obtain so va sz where
    "fieldValue e ''segment offset'' programHeaderEntry off = Ok so"
    "fieldValue e ''virtual address'' programHeaderEntry off = Ok va"
    "fieldValue e ''file size'' programHeaderEntry off = Ok sz"
    by blast
  with assms(1) True show ?thesis
    by (simp add: entryStep_def executable_bit)
qed

lemma entryLoop_returns:
  assumes "\<forall>k acc. i \<le> k \<and> k < n \<longrightarrow> (\<exists>out. entryStep e (t + of_nat k * es) acc = Ok out)"
  shows "\<exists>out. entryLoop e t es i n acc = Ok out"
  using assms
proof (induction e t es i n acc rule: entryLoop.induct)
  case (1 e t es i n acc)
  show ?case
  proof (cases "i < n")
    case False
    then show ?thesis
      by (simp add: entryLoop.simps [of e t es i n acc])
  next
    case True
    have "i \<le> i \<and> i < n"
      using True by simp
    with "1.prems" obtain acc' where step: "entryStep e (t + of_nat i * es) acc = Ok acc'"
      by blast
    have "\<forall>k acc. Suc i \<le> k \<and> k < n \<longrightarrow> (\<exists>out. entryStep e (t + of_nat k * es) acc = Ok out)"
      using "1.prems" by simp
    then have "\<exists>out. entryLoop e t es (Suc i) n acc' = Ok out"
      by (rule "1.IH" [OF True])
    with True step show ?thesis
      by (simp add: entryLoop.simps [of e t es i n acc])
  qed
qed

lemma list_all2_left:
  assumes "list_all2 P xs ys" and "x \<in> set xs"
  shows "\<exists>y. P x y"
  using assms by (induction rule: list_all2_induct) auto

lemma locateExecutableSegments_Ok_entries:
  assumes "locateExecutableSegments e = Ok segs"
  shows "\<exists>tableOffset entrySize numEntries.
       fieldValue e ''program header table offset'' elfHeader 0 = Ok tableOffset
     \<and> fieldValue e ''program header table entry size'' elfHeader 0 = Ok entrySize
     \<and> fieldValue e ''program header table num entries'' elfHeader 0 = Ok numEntries
     \<and> list_all2 (\<lambda>i seg.
           fieldValue e ''segment offset'' programHeaderEntry (tableOffset + of_nat i * entrySize)
             = Ok (Offset seg)
         \<and> fieldValue e ''virtual address'' programHeaderEntry (tableOffset + of_nat i * entrySize)
             = Ok (VAddr seg)
         \<and> fieldValue e ''file size'' programHeaderEntry (tableOffset + of_nat i * entrySize)
             = Ok (Size seg))
         (filter (\<lambda>i. \<exists>flags.
              fieldValue e ''flags'' programHeaderEntry (tableOffset + of_nat i * entrySize) = Ok flags
              \<and> bit flags 0) [0..<unat numEntries])
         segs
     \<and> (\<forall>i. i < unat numEntries \<longrightarrow>
           (\<exists>flags. fieldValue e ''flags'' programHeaderEntry (tableOffset + of_nat i * entrySize)
              = Ok flags))"
proof -
  from assms obtain t es n where t: "fieldValue e ''program header table offset'' elfHeader 0 = Ok t"
    and es: "fieldValue e ''program header table entry size'' elfHeader 0 = Ok es"
    and n: "fieldValue e ''program header table num entries'' elfHeader 0 = Ok n"
    and loop: "entryLoop e t es 0 (unat n) [] = Ok segs"
    by (auto simp: locateExecutableSegments_def bind_eq_Ok split: if_splits)
  from entryLoop_Ok [OF loop] t es n show ?thesis
    by (intro exI [of _ t] exI [of _ es] exI [of _ n]) simp
qed

text \<open>
  Claim C6: \<open>locateExecutableSegments\<close> walks the entries of the program header table in
  file order, entry \<open>i\<close> at \<open>tableOffset + i * entrySize\<close> (in \<open>uint\<close> arithmetic), reads
  the flags of each, and returns one segment for each entry whose flags have bit 0 set,
  built from the file offset, virtual address and file size of that entry, in the order
  of the entries.

  The function returns a list exactly when the three header fields can be read, the
  entry count is not 0, the flags of every entry can be read and, for the entries whose
  flags have bit 0 set, so can the three fields of the segment (first conjunct). The
  list it returns matches, element by element and in order, the entries in
  \<open>[0..<numEntries]\<close> whose flags have bit 0 set (second conjunct). The last conjunct is
  the walk over the three entries of \<open>image_three\<close>.
\<close>

theorem locateExecutableSegments_entries:
  fixes e :: "'t Elf"
  shows "((\<exists>segs. locateExecutableSegments e = Ok segs) \<longleftrightarrow>
          (\<exists>tableOffset entrySize numEntries.
             fieldValue e ''program header table offset'' elfHeader 0 = Ok tableOffset
           \<and> fieldValue e ''program header table entry size'' elfHeader 0 = Ok entrySize
           \<and> fieldValue e ''program header table num entries'' elfHeader 0 = Ok numEntries
           \<and> numEntries \<noteq> 0
           \<and> (\<forall>i. i < unat numEntries \<longrightarrow>
                (\<exists>flags. fieldValue e ''flags'' programHeaderEntry
                            (tableOffset + of_nat i * entrySize) = Ok flags
                  \<and> (bit flags 0 \<longrightarrow> (\<exists>so va sz.
                        fieldValue e ''segment offset'' programHeaderEntry
                          (tableOffset + of_nat i * entrySize) = Ok so
                      \<and> fieldValue e ''virtual address'' programHeaderEntry
                          (tableOffset + of_nat i * entrySize) = Ok va
                      \<and> fieldValue e ''file size'' programHeaderEntry
                          (tableOffset + of_nat i * entrySize) = Ok sz))))))
       \<and> (locateExecutableSegments e = Ok segs \<longrightarrow>
           (\<exists>tableOffset entrySize numEntries.
               fieldValue e ''program header table offset'' elfHeader 0 = Ok tableOffset
             \<and> fieldValue e ''program header table entry size'' elfHeader 0 = Ok entrySize
             \<and> fieldValue e ''program header table num entries'' elfHeader 0 = Ok numEntries
             \<and> list_all2 (\<lambda>i seg.
                   fieldValue e ''segment offset'' programHeaderEntry
                     (tableOffset + of_nat i * entrySize) = Ok (Offset seg)
                 \<and> fieldValue e ''virtual address'' programHeaderEntry
                     (tableOffset + of_nat i * entrySize) = Ok (VAddr seg)
                 \<and> fieldValue e ''file size'' programHeaderEntry
                     (tableOffset + of_nat i * entrySize) = Ok (Size seg))
                 (filter (\<lambda>i. \<exists>flags.
                      fieldValue e ''flags'' programHeaderEntry
                        (tableOffset + of_nat i * entrySize) = Ok flags
                      \<and> bit flags 0) [0..<unat numEntries])
                 segs
             \<and> (\<forall>i. i < unat numEntries \<longrightarrow>
                   (\<exists>flags. fieldValue e ''flags'' programHeaderEntry
                      (tableOffset + of_nat i * entrySize) = Ok flags))))
       \<and> locateExecutableSegments (elfOf 32 ''little'' (Some ARM) (mkslice image_three) :: 't Elf) =
           Ok [\<lparr>VAddr = 0x1000, Offset = 0x94, Size = 8\<rparr>, \<lparr>VAddr = 0x3000, Offset = 0xa0, Size = 4\<rparr>]"
proof -
  define R where "R = (\<lambda>off. \<exists>flags. fieldValue e ''flags'' programHeaderEntry off = Ok flags
      \<and> (bit flags 0 \<longrightarrow> (\<exists>so va sz.
            fieldValue e ''segment offset'' programHeaderEntry off = Ok so
          \<and> fieldValue e ''virtual address'' programHeaderEntry off = Ok va
          \<and> fieldValue e ''file size'' programHeaderEntry off = Ok sz)))"
  define H where "H = (\<lambda>t es n.
        fieldValue e ''program header table offset'' elfHeader 0 = Ok t
      \<and> fieldValue e ''program header table entry size'' elfHeader 0 = Ok es
      \<and> fieldValue e ''program header table num entries'' elfHeader 0 = Ok n)"
  have unfold: "locateExecutableSegments e = entryLoop e t es 0 (unat n) []"
    if "H t es n" and "n \<noteq> 0" for t es n
    using that by (simp add: H_def locateExecutableSegments_def)
  have header: "\<exists>t es n. H t es n \<and> n \<noteq> 0 \<and> entryLoop e t es 0 (unat n) [] = Ok segs"
    if "locateExecutableSegments e = Ok segs" for segs
    using that unfolding H_def
    by (auto simp: locateExecutableSegments_def bind_eq_Ok split: if_splits)
  have step_R: "\<exists>out. entryStep e off acc = Ok out" if "R off" for off acc
  proof -
    from that [unfolded R_def] obtain flags where
      f: "fieldValue e ''flags'' programHeaderEntry off = Ok flags
      \<and> (bit flags 0 \<longrightarrow> (\<exists>so va sz.
            fieldValue e ''segment offset'' programHeaderEntry off = Ok so
          \<and> fieldValue e ''virtual address'' programHeaderEntry off = Ok va
          \<and> fieldValue e ''file size'' programHeaderEntry off = Ok sz))" ..
    from f [THEN conjunct1] f [THEN conjunct2]
    show ?thesis
      by (rule entryStep_returns)
  qed
  have Ok_R: "R (t + of_nat i * es)"
    if loop: "entryLoop e t es 0 n [] = Ok segs" and i: "i < n" for t es n segs i
  proof -
    let ?P = "\<lambda>(k :: nat) (seg :: segment).
         fieldValue e ''segment offset'' programHeaderEntry (t + of_nat k * es) = Ok (Offset seg)
       \<and> fieldValue e ''virtual address'' programHeaderEntry (t + of_nat k * es) = Ok (VAddr seg)
       \<and> fieldValue e ''file size'' programHeaderEntry (t + of_nat k * es) = Ok (Size seg)"
    let ?Q = "\<lambda>k :: nat. \<exists>flags. fieldValue e ''flags'' programHeaderEntry (t + of_nat k * es) = Ok flags
                \<and> bit flags 0"
    from entryLoop_Ok [OF loop] obtain new where nw: "segs = [] @ new
        \<and> list_all2 ?P (filter ?Q [0..<n]) new
        \<and> (\<forall>k. 0 \<le> k \<and> k < n \<longrightarrow>
             (\<exists>flags. fieldValue e ''flags'' programHeaderEntry (t + of_nat k * es) = Ok flags))" ..
    from nw have all2: "list_all2 ?P (filter ?Q [0..<n]) new"
      by (elim conjE)
    from nw have rd: "\<forall>k. 0 \<le> k \<and> k < n \<longrightarrow>
         (\<exists>flags. fieldValue e ''flags'' programHeaderEntry (t + of_nat k * es) = Ok flags)"
      by (elim conjE)
    from rd i obtain flags where
      fl: "fieldValue e ''flags'' programHeaderEntry (t + of_nat i * es) = Ok flags"
      by auto
    have "\<exists>so va sz.
            fieldValue e ''segment offset'' programHeaderEntry (t + of_nat i * es) = Ok so
          \<and> fieldValue e ''virtual address'' programHeaderEntry (t + of_nat i * es) = Ok va
          \<and> fieldValue e ''file size'' programHeaderEntry (t + of_nat i * es) = Ok sz"
      if b: "bit flags 0"
    proof -
      have "?Q i"
        using fl b by (intro exI [of _ flags] conjI)
      then have "i \<in> set (filter ?Q [0..<n])"
        using i by simp
      with all2 have "\<exists>seg. ?P i seg"
        by (rule list_all2_left)
      then obtain seg where "?P i seg" ..
      then show ?thesis
        by (intro exI [of _ "Offset seg"] exI [of _ "VAddr seg"] exI [of _ "Size seg"])
    qed
    with fl show ?thesis
      unfolding R_def by blast
  qed
  have dom: "(\<exists>segs. locateExecutableSegments e = Ok segs) \<longleftrightarrow>
      (\<exists>t es n. H t es n \<and> n \<noteq> 0 \<and> (\<forall>i. i < unat n \<longrightarrow> R (t + of_nat i * es)))"
  proof
    assume "\<exists>segs. locateExecutableSegments e = Ok segs"
    then obtain segs where "locateExecutableSegments e = Ok segs" ..
    from header [OF this] obtain t es n where h: "H t es n" and n0: "n \<noteq> 0"
      and loop: "entryLoop e t es 0 (unat n) [] = Ok segs"
      by blast
    have "\<forall>i. i < unat n \<longrightarrow> R (t + of_nat i * es)"
      using Ok_R [OF loop] by (intro allI impI)
    with h n0 show "\<exists>t es n. H t es n \<and> n \<noteq> 0 \<and> (\<forall>i. i < unat n \<longrightarrow> R (t + of_nat i * es))"
      by (intro exI [of _ t] exI [of _ es] exI [of _ n] conjI)
  next
    assume "\<exists>t es n. H t es n \<and> n \<noteq> 0 \<and> (\<forall>i. i < unat n \<longrightarrow> R (t + of_nat i * es))"
    then obtain t es n where h: "H t es n" and n0: "n \<noteq> 0"
      and r: "\<forall>i. i < unat n \<longrightarrow> R (t + of_nat i * es)"
      by blast
    have "\<forall>k acc. 0 \<le> k \<and> k < unat n \<longrightarrow> (\<exists>out. entryStep e (t + of_nat k * es) acc = Ok out)"
      using r step_R by simp
    then have "\<exists>out. entryLoop e t es 0 (unat n) [] = Ok out"
      by (rule entryLoop_returns)
    then show "\<exists>segs. locateExecutableSegments e = Ok segs"
      unfolding unfold [OF h n0] .
  qed
  have entries: "locateExecutableSegments e = Ok segs \<longrightarrow>
           (\<exists>tableOffset entrySize numEntries.
               fieldValue e ''program header table offset'' elfHeader 0 = Ok tableOffset
             \<and> fieldValue e ''program header table entry size'' elfHeader 0 = Ok entrySize
             \<and> fieldValue e ''program header table num entries'' elfHeader 0 = Ok numEntries
             \<and> list_all2 (\<lambda>i seg.
                   fieldValue e ''segment offset'' programHeaderEntry
                     (tableOffset + of_nat i * entrySize) = Ok (Offset seg)
                 \<and> fieldValue e ''virtual address'' programHeaderEntry
                     (tableOffset + of_nat i * entrySize) = Ok (VAddr seg)
                 \<and> fieldValue e ''file size'' programHeaderEntry
                     (tableOffset + of_nat i * entrySize) = Ok (Size seg))
                 (filter (\<lambda>i. \<exists>flags.
                      fieldValue e ''flags'' programHeaderEntry
                        (tableOffset + of_nat i * entrySize) = Ok flags
                      \<and> bit flags 0) [0..<unat numEntries])
                 segs
             \<and> (\<forall>i. i < unat numEntries \<longrightarrow>
                   (\<exists>flags. fieldValue e ''flags'' programHeaderEntry
                      (tableOffset + of_nat i * entrySize) = Ok flags)))"
    by (intro impI) (rule locateExecutableSegments_Ok_entries)
  have ev: "locateExecutableSegments (elfOf 32 ''little'' (Some ARM) (mkslice image_three) :: 't Elf) =
           Ok [\<lparr>VAddr = 0x1000, Offset = 0x94, Size = 8\<rparr>, \<lparr>VAddr = 0x3000, Offset = 0xa0, Size = 4\<rparr>]"
    by (simp add: load_defs read_defs elfOf_def mkslice_def image_three_def)
  from dom [unfolded R_def H_def] entries ev show ?thesis
    by (simp only: conj_assoc simp_thms)
qed

theorem locateExecutableSegments_entries_witness:
  "locateExecutableSegments
        (elfOf 32 ''little'' (Some ARM) (mkslice image_three) :: unit Elf)
        = Ok [\<lparr>VAddr = 0x1000, Offset = 0x94, Size = 8\<rparr>, \<lparr>VAddr = 0x3000, Offset = 0xa0, Size = 4\<rparr>]
   \<and> (\<exists>tableOffset entrySize numEntries.
             fieldValue
                   (elfOf 32 ''little'' (Some ARM) (mkslice image_three) :: unit Elf)
                   ''program header table offset'' elfHeader 0 = Ok tableOffset
           \<and> fieldValue
                 (elfOf 32 ''little'' (Some ARM) (mkslice image_three) :: unit Elf)
                 ''program header table entry size'' elfHeader 0 = Ok entrySize
           \<and> fieldValue
                 (elfOf 32 ''little'' (Some ARM) (mkslice image_three) :: unit Elf)
                 ''program header table num entries'' elfHeader 0 = Ok numEntries
           \<and> numEntries \<noteq> 0
           \<and> (\<forall>i. i < unat numEntries \<longrightarrow>
                (\<exists>flags. fieldValue
                      (elfOf 32 ''little'' (Some ARM) (mkslice image_three) :: unit Elf)
                      ''flags'' programHeaderEntry
                            (tableOffset + of_nat i * entrySize) = Ok flags
                  \<and> (bit flags 0 \<longrightarrow> (\<exists>so va sz.
                        fieldValue
                              (elfOf 32 ''little'' (Some ARM) (mkslice image_three) :: unit Elf)
                              ''segment offset'' programHeaderEntry
                          (tableOffset + of_nat i * entrySize) = Ok so
                      \<and> fieldValue
                            (elfOf 32 ''little'' (Some ARM) (mkslice image_three) :: unit Elf)
                            ''virtual address'' programHeaderEntry
                          (tableOffset + of_nat i * entrySize) = Ok va
                      \<and> fieldValue
                            (elfOf 32 ''little'' (Some ARM) (mkslice image_three) :: unit Elf)
                            ''file size'' programHeaderEntry
                          (tableOffset + of_nat i * entrySize) = Ok sz)))))
   \<and> (\<exists>tableOffset entrySize numEntries.
               fieldValue
                     (elfOf 32 ''little'' (Some ARM) (mkslice image_three) :: unit Elf)
                     ''program header table offset'' elfHeader 0 = Ok tableOffset
             \<and> fieldValue
                   (elfOf 32 ''little'' (Some ARM) (mkslice image_three) :: unit Elf)
                   ''program header table entry size'' elfHeader 0 = Ok entrySize
             \<and> fieldValue
                   (elfOf 32 ''little'' (Some ARM) (mkslice image_three) :: unit Elf)
                   ''program header table num entries'' elfHeader 0 = Ok numEntries
             \<and> list_all2 (\<lambda>i seg.
                   fieldValue
                         (elfOf 32 ''little'' (Some ARM) (mkslice image_three) :: unit Elf)
                         ''segment offset'' programHeaderEntry
                     (tableOffset + of_nat i * entrySize) = Ok (Offset seg)
                 \<and> fieldValue
                       (elfOf 32 ''little'' (Some ARM) (mkslice image_three) :: unit Elf)
                       ''virtual address'' programHeaderEntry
                     (tableOffset + of_nat i * entrySize) = Ok (VAddr seg)
                 \<and> fieldValue
                       (elfOf 32 ''little'' (Some ARM) (mkslice image_three) :: unit Elf)
                       ''file size'' programHeaderEntry
                     (tableOffset + of_nat i * entrySize) = Ok (Size seg))
                 (filter (\<lambda>i. \<exists>flags.
                      fieldValue
                            (elfOf 32 ''little'' (Some ARM) (mkslice image_three) :: unit Elf)
                            ''flags'' programHeaderEntry
                        (tableOffset + of_nat i * entrySize) = Ok flags
                      \<and> bit flags 0) [0..<unat numEntries])
                 [\<lparr>VAddr = 0x1000, Offset = 0x94, Size = 8\<rparr>, \<lparr>VAddr = 0x3000, Offset = 0xa0, Size = 4\<rparr>]
             \<and> (\<forall>i. i < unat numEntries \<longrightarrow>
                   (\<exists>flags. fieldValue
                         (elfOf 32 ''little'' (Some ARM) (mkslice image_three) :: unit Elf)
                         ''flags'' programHeaderEntry
                      (tableOffset + of_nat i * entrySize) = Ok flags)))"
proof -
  let ?e = "elfOf 32 ''little'' (Some ARM) (mkslice image_three) :: unit Elf"
  let ?segs = "[\<lparr>VAddr = 0x1000, Offset = 0x94, Size = 8\<rparr>, \<lparr>VAddr = 0x3000, Offset = 0xa0, Size = 4\<rparr>] :: segment list"
  have ev: "locateExecutableSegments ?e = Ok ?segs"
    by (simp add: load_defs read_defs elfOf_def mkslice_def image_three_def)
  then have ex: "\<exists>segs. locateExecutableSegments ?e = Ok segs" ..
  note total = locateExecutableSegments_entries [where e = ?e and segs = ?segs]
  from total [THEN conjunct1, THEN iffD1, OF ex]
  have dom: "(\<exists>tableOffset entrySize numEntries.
             fieldValue ?e ''program header table offset'' elfHeader 0 = Ok tableOffset
           \<and> fieldValue ?e ''program header table entry size'' elfHeader 0 = Ok entrySize
           \<and> fieldValue ?e ''program header table num entries'' elfHeader 0 = Ok numEntries
           \<and> numEntries \<noteq> 0
           \<and> (\<forall>i. i < unat numEntries \<longrightarrow>
                (\<exists>flags. fieldValue ?e ''flags'' programHeaderEntry
                            (tableOffset + of_nat i * entrySize) = Ok flags
                  \<and> (bit flags 0 \<longrightarrow> (\<exists>so va sz.
                        fieldValue ?e ''segment offset'' programHeaderEntry
                          (tableOffset + of_nat i * entrySize) = Ok so
                      \<and> fieldValue ?e ''virtual address'' programHeaderEntry
                          (tableOffset + of_nat i * entrySize) = Ok va
                      \<and> fieldValue ?e ''file size'' programHeaderEntry
                          (tableOffset + of_nat i * entrySize) = Ok sz)))))" .
  from total [THEN conjunct2, THEN conjunct1, THEN mp, OF ev]
  have ent: "(\<exists>tableOffset entrySize numEntries.
               fieldValue ?e ''program header table offset'' elfHeader 0 = Ok tableOffset
             \<and> fieldValue ?e ''program header table entry size'' elfHeader 0 = Ok entrySize
             \<and> fieldValue ?e ''program header table num entries'' elfHeader 0 = Ok numEntries
             \<and> list_all2 (\<lambda>i seg.
                   fieldValue ?e ''segment offset'' programHeaderEntry
                     (tableOffset + of_nat i * entrySize) = Ok (Offset seg)
                 \<and> fieldValue ?e ''virtual address'' programHeaderEntry
                     (tableOffset + of_nat i * entrySize) = Ok (VAddr seg)
                 \<and> fieldValue ?e ''file size'' programHeaderEntry
                     (tableOffset + of_nat i * entrySize) = Ok (Size seg))
                 (filter (\<lambda>i. \<exists>flags.
                      fieldValue ?e ''flags'' programHeaderEntry
                        (tableOffset + of_nat i * entrySize) = Ok flags
                      \<and> bit flags 0) [0..<unat numEntries])
                 ?segs
             \<and> (\<forall>i. i < unat numEntries \<longrightarrow>
                   (\<exists>flags. fieldValue ?e ''flags'' programHeaderEntry
                      (tableOffset + of_nat i * entrySize) = Ok flags)))" .
  from ev dom ent show ?thesis
    by (intro conjI)
qed

text \<open>
  Claim C9: when the three header fields of the table can be read and the entry count
  is 0, \<open>locateExecutableSegments\<close> fails with the empty-table error, and so does
  \<open>NewElf\<close>. The result does not depend on the table offset or on what the buffer holds
  there: no entry is read.
\<close>

theorem empty_table_rejected:
  fixes e :: "'t Elf" and Trie :: "Instruction list \<Rightarrow> ISA option \<Rightarrow> 't"
  assumes "fieldValue e ''program header table offset'' elfHeader 0 = Ok tableOffset"
    and "fieldValue e ''program header table entry size'' elfHeader 0 = Ok entrySize"
    and "fieldValue e ''program header table num entries'' elfHeader 0 = Ok 0"
  shows "locateExecutableSegments e = Err ErrEmptyTable
       \<and> kind ErrEmptyTable = EmptyProgramHeaderTable
       \<and> (elfArch c = Ok a \<and> elfEndianness c = Ok en
            \<and> setISA (elfOf a en None c) (args ''---thumb'' \<noteq> None) = Ok (e, printed)
            \<longrightarrow> NewElf Trie c args = Err ErrEmptyTable)"
proof -
  have loc: "locateExecutableSegments e = Err ErrEmptyTable"
    using assms by (simp add: locateExecutableSegments_def)
  then have "NewElf Trie c args = Err ErrEmptyTable"
    if "elfArch c = Ok a" "elfEndianness c = Ok en"
      "setISA (elfOf a en None c) (args ''---thumb'' \<noteq> None) = Ok (e, printed)"
    unfolding NewElf_Err using that by blast
  with loc show ?thesis by simp
qed

theorem empty_table_rejected_witness:
  "fieldValue (elfOf 32 ''little'' (Some X86) (mkslice image_no_entries) :: unit Elf)
       ''program header table num entries'' elfHeader 0 = Ok 0
   \<and> locateExecutableSegments (elfOf 32 ''little'' (Some X86) (mkslice image_no_entries) :: unit Elf)
       = Err ErrEmptyTable
   \<and> NewElf (\<lambda>stream d. ()) (mkslice image_no_entries) Map.empty = Err ErrEmptyTable"
proof -
  let ?e = "elfOf 32 ''little'' (Some X86) (mkslice image_no_entries) :: unit Elf"
  have t: "fieldValue ?e ''program header table offset'' elfHeader 0 = Ok 0x34"
    and es: "fieldValue ?e ''program header table entry size'' elfHeader 0 = Ok 0x20"
    and n: "fieldValue ?e ''program header table num entries'' elfHeader 0 = Ok 0"
    by (simp_all add: read_defs elfOf_def mkslice_def image_no_entries_def)
  have a: "elfArch (mkslice image_no_entries) = Ok 32"
    and en: "elfEndianness (mkslice image_no_entries) = Ok ''little''"
    by (simp_all add: elfArch_def elfEndianness_def index_def mkslice_def image_no_entries_def)
  have s: "setISA (elfOf 32 ''little'' None (mkslice image_no_entries) :: unit Elf)
      (Map.empty ''---thumb'' \<noteq> None) = Ok (?e, [])"
    by (simp add: setISA_def supportedISAs_def read_defs elfOf_def mkslice_def
        image_no_entries_def)
  from empty_table_rejected [OF t es n, where c = "mkslice image_no_entries" and a = 32
      and en = "''little''" and args = Map.empty and printed = "[]" and Trie = "\<lambda>stream d. ()"]
    a en s n
  show ?thesis by blast
qed

text \<open>
  Claim C10: for an entry whose flags can be read and have bit 0 clear, the loop reads
  no other field: the step returns the segments unchanged, and the loop goes on with the
  next entry, whether the other fields of the entry can be read or not. So an image
  loads even when those fields of a non-executable entry lie past the end of the buffer:
  in \<open>image_short_entry\<close> the second entry (at 0x78) has flags 6, the reads of its file
  offset, virtual address and file size all fail, and \<open>NewElf\<close> returns the image.
\<close>

theorem nonexecutable_entry_skipped:
  fixes e :: "'t Elf" and Trie :: "Instruction list \<Rightarrow> ISA option \<Rightarrow> 't"
  assumes "fieldValue e ''flags'' programHeaderEntry (tableOffset + of_nat i * entrySize) = Ok flags"
    and "\<not> bit flags 0"
    and "i < numEntries"
  shows "entryStep e (tableOffset + of_nat i * entrySize) segments = Ok segments
       \<and> entryLoop e tableOffset entrySize i numEntries segments =
           entryLoop e tableOffset entrySize (Suc i) numEntries segments
       \<and> fieldValue (elfOf 64 ''little'' (Some X86) (mkslice image_short_entry) :: 't Elf)
           ''flags'' programHeaderEntry (0x40 + of_nat 1 * 0x38) = Ok 6
       \<and> fieldValue (elfOf 64 ''little'' (Some X86) (mkslice image_short_entry) :: 't Elf)
           ''segment offset'' programHeaderEntry (0x40 + of_nat 1 * 0x38) = Err ErrValueOffset
       \<and> fieldValue (elfOf 64 ''little'' (Some X86) (mkslice image_short_entry) :: 't Elf)
           ''virtual address'' programHeaderEntry (0x40 + of_nat 1 * 0x38) = Err ErrValueOffset
       \<and> fieldValue (elfOf 64 ''little'' (Some X86) (mkslice image_short_entry) :: 't Elf)
           ''file size'' programHeaderEntry (0x40 + of_nat 1 * 0x38) = Err ErrValueOffset
       \<and> locateExecutableSegments
           (elfOf 64 ''little'' (Some X86) (mkslice image_short_entry) :: 't Elf) =
           Ok [\<lparr>VAddr = 0x400000, Offset = 0, Size = 4\<rparr>]
       \<and> NewElf Trie (mkslice image_short_entry) Map.empty =
           Ok ((elfOf 64 ''little'' (Some X86) (mkslice image_short_entry))
                \<lparr>reverseInstructionTrie := Some (Trie
                   [\<lparr>Op = ''7f'', Vaddr = 0x400000\<rparr>, \<lparr>Op = ''45'', Vaddr = 0x400001\<rparr>,
                    \<lparr>Op = ''4c'', Vaddr = 0x400002\<rparr>, \<lparr>Op = ''46'', Vaddr = 0x400003\<rparr>]
                   (Some X86))\<rparr>)"
proof -
  have step: "entryStep e (tableOffset + of_nat i * entrySize) segments = Ok segments"
    using assms(1,2) by (rule entryStep_skip)
  have loop: "entryLoop e tableOffset entrySize i numEntries segments =
           entryLoop e tableOffset entrySize (Suc i) numEntries segments"
    using assms(3) step by (simp add: entryLoop.simps [of e tableOffset entrySize i numEntries segments])
  have fields:
    "fieldValue (elfOf 64 ''little'' (Some X86) (mkslice image_short_entry) :: 't Elf)
           ''flags'' programHeaderEntry (0x40 + of_nat 1 * 0x38) = Ok 6"
    "fieldValue (elfOf 64 ''little'' (Some X86) (mkslice image_short_entry) :: 't Elf)
           ''segment offset'' programHeaderEntry (0x40 + of_nat 1 * 0x38) = Err ErrValueOffset"
    "fieldValue (elfOf 64 ''little'' (Some X86) (mkslice image_short_entry) :: 't Elf)
           ''virtual address'' programHeaderEntry (0x40 + of_nat 1 * 0x38) = Err ErrValueOffset"
    "fieldValue (elfOf 64 ''little'' (Some X86) (mkslice image_short_entry) :: 't Elf)
           ''file size'' programHeaderEntry (0x40 + of_nat 1 * 0x38) = Err ErrValueOffset"
    by (simp_all add: read_defs elfOf_def mkslice_def image_short_entry_def)
  have loc: "locateExecutableSegments
           (elfOf 64 ''little'' (Some X86) (mkslice image_short_entry) :: 't Elf) =
           Ok [\<lparr>VAddr = 0x400000, Offset = 0, Size = 4\<rparr>]"
    by (simp add: load_defs read_defs elfOf_def mkslice_def image_short_entry_def)
  have new: "NewElf Trie (mkslice image_short_entry) Map.empty =
           Ok ((elfOf 64 ''little'' (Some X86) (mkslice image_short_entry))
                \<lparr>reverseInstructionTrie := Some (Trie
                   [\<lparr>Op = ''7f'', Vaddr = 0x400000\<rparr>, \<lparr>Op = ''45'', Vaddr = 0x400001\<rparr>,
                    \<lparr>Op = ''4c'', Vaddr = 0x400002\<rparr>, \<lparr>Op = ''46'', Vaddr = 0x400003\<rparr>]
                   (Some X86))\<rparr>)"
    by (simp add: load_defs read_defs elfOf_def mkslice_def image_short_entry_def hextable_def
        EncodeToString_def)
  from step loop fields loc new show ?thesis
    by (intro conjI)
qed

theorem nonexecutable_entry_skipped_witness:
  "fieldValue (elfOf 64 ''little'' (Some X86) (mkslice image_short_entry) :: unit Elf)
       ''flags'' programHeaderEntry (0x40 + of_nat 1 * 0x38) = Ok 6
   \<and> \<not> bit (6 :: uint) 0
   \<and> entryStep (elfOf 64 ''little'' (Some X86) (mkslice image_short_entry) :: unit Elf)
       (0x40 + of_nat 1 * 0x38) [\<lparr>VAddr = 0x400000, Offset = 0, Size = 4\<rparr>] =
       Ok [\<lparr>VAddr = 0x400000, Offset = 0, Size = 4\<rparr>]"
proof -
  have fl: "fieldValue (elfOf 64 ''little'' (Some X86) (mkslice image_short_entry) :: unit Elf)
       ''flags'' programHeaderEntry (0x40 + of_nat 1 * 0x38) = Ok 6"
    by (simp add: read_defs elfOf_def mkslice_def image_short_entry_def)
  have b: "\<not> bit (6 :: uint) 0"
    by simp
  have i: "(1 :: nat) < 2"
    by simp
  from nonexecutable_entry_skipped [OF fl b i, where Trie = "\<lambda>stream d. ()"
      and segments = "[\<lparr>VAddr = 0x400000, Offset = 0, Size = 4\<rparr>]"] fl b
  show ?thesis by blast
qed

text \<open>
  Claim C2: every segment that \<open>locateExecutableSegments\<close> returns lies inside the
  buffer (file offset plus file size is at most the length of the buffer), so the slice
  that \<open>InstructionStream\<close> takes for it is in bounds.

  \<open>locateExecutableSegments\<close> checks that the three fields of an entry can be read, not
  what they say. On an image of 88 bytes whose entry declares offset 0x54 and size
  0xffffff00 it returns that segment, and
  \<open>e.contents[segment.Offset : segment.Offset+segment.Size]\<close> panics in
  \<open>InstructionStream\<close>, also when the buffer has spare capacity (here 512 bytes in all).
\<close>

theorem oversize_segment_accepted:
  "locateExecutableSegments (elfOf 32 ''little'' (Some ARM) (mkslice image_oversize)) =
       Ok [\<lparr>VAddr = 0x1000, Offset = 0x54, Size = 0xffffff00\<rparr>]
   \<and> length image_oversize = 88
   \<and> InstructionStream (elfOf 32 ''little'' (Some ARM) (mkslice image_oversize))
       [\<lparr>VAddr = 0x1000, Offset = 0x54, Size = 0xffffff00\<rparr>] = Panic
   \<and> NewElf Trie (mkslice image_oversize) Map.empty = Panic
   \<and> NewElf Trie \<lparr>arr = image_oversize @ replicate 424 0, len = 88\<rparr> Map.empty = Panic"
  by (simp add: load_defs read_defs elfOf_def mkslice_def image_oversize_def)

end
